theory Spec2Isabelle
  imports Main
begin

section \<open>JavaScript values and truthiness\<close>

text \<open>
  Event payloads, subscriber results and syscall arguments are untyped (\<open>any\<close>) in the
  editor. Numbers are integers here (no NaN); every object and array is truthy.
\<close>

datatype JsValue =
    JUndefined
  | JNull
  | JBool bool
  | JNum int
  | JStr string
  | JObj "(string \<times> JsValue) list"
  | JArr "JsValue list"

fun truthy :: "JsValue \<Rightarrow> bool" where
  "truthy JUndefined = False"
| "truthy JNull = False"
| "truthy (JBool b) = b"
| "truthy (JNum n) = (n \<noteq> 0)"
| "truthy (JStr s) = (s \<noteq> [])"
| "truthy (JObj fs) = True"
| "truthy (JArr vs) = True"

text \<open>An optional string (\<open>string | undefined\<close>) is truthy when present and not empty.\<close>

fun truthyStr :: "string option \<Rightarrow> bool" where
  "truthyStr None = False"
| "truthyStr (Some s) = (s \<noteq> [])"

datatype JsError = Error string

datatype 'a Outcome = Returns 'a | Throws JsError | NeverSettles

section \<open>Manifest model\<close>

text \<open>
  The manifest schema: a named plug declares functions, each with an optional
  environment, events, a command, a slash command and a page namespace.
\<close>

datatype Env = Client | Server

record CommandDef =
  name :: string
  key :: "string option"
  mac :: "string option"
  priority :: "int option"
  contexts :: "string list option"

record SlashCommandDef =
  slashName :: string
  description :: string
  slashValue :: "string option"

record PageNamespaceDef =
  pattern :: string
  operation :: string

record FunctionDef =
  path :: string
  env :: "Env option"
  events :: "string list"
  command :: "CommandDef option"
  slashCommand :: "SlashCommandDef option"
  pageNamespace :: "PageNamespaceDef option"

record Manifest =
  manifestName :: string
  functionDefs :: "(string \<times> FunctionDef) list"

definition plainFunction :: "string \<Rightarrow> FunctionDef" where
  "plainFunction p =
     \<lparr>path = p, env = None, events = [], command = None, slashCommand = None,
      pageNamespace = None\<rparr>"

definition plainCommand :: "string \<Rightarrow> CommandDef" where
  "plainCommand n = \<lparr>name = n, key = None, mac = None, priority = None, contexts = None\<rparr>"

text \<open>The search glyph U+1F50D and the cloud glyph U+1F4AD, as UTF-8 bytes.\<close>

definition searchGlyph :: string where
  "searchGlyph = [CHR 0xF0, CHR 0x9F, CHR 0x94, CHR 0x8D]"

definition cloudGlyph :: string where
  "cloudGlyph = [CHR 0xF0, CHR 0x9F, CHR 0x92, CHR 0xAD]"

text \<open>
  The part of the core plug manifest that the properties below refer to:
  completion providers, the link unfurl command and the page namespaces.
\<close>

definition coreManifest :: Manifest where
  "coreManifest = \<lparr>manifestName = ''core'', functionDefs = [
     (''clearPageIndex'', (plainFunction ''./page.ts:clearPageIndex'')
        \<lparr>env := Some Server, events := [''page:saved'', ''page:deleted'']\<rparr>),
     (''deletePage'', (plainFunction ''./page.ts:deletePage'')
        \<lparr>command := Some (plainCommand ''Page: Delete'')\<rparr>),
     (''pageComplete'', (plainFunction ''./page.ts:pageComplete'')
        \<lparr>events := [''page:complete'']\<rparr>),
     (''commandComplete'', (plainFunction ''./command.ts:commandComplete'')
        \<lparr>events := [''page:complete'']\<rparr>),
     (''linkNavigate'', (plainFunction ''./navigate.ts:linkNavigate'')
        \<lparr>command := Some ((plainCommand ''Navigate To page'')
           \<lparr>key := Some ''Ctrl-Enter'', mac := Some ''Cmd-Enter''\<rparr>)\<rparr>),
     (''tagComplete'', (plainFunction ''./tags.ts:tagComplete'')
        \<lparr>events := [''page:complete'']\<rparr>),
     (''anchorComplete'', (plainFunction ''./anchor.ts:anchorComplete'')
        \<lparr>events := [''page:complete'']\<rparr>),
     (''readPageSearch'', (plainFunction ''./search.ts:readFileSearch'')
        \<lparr>pageNamespace := Some \<lparr>pattern = searchGlyph @ '' .+'', operation = ''readFile''\<rparr>\<rparr>),
     (''getPageMetaSearch'', (plainFunction ''./search.ts:getFileMetaSearch'')
        \<lparr>pageNamespace := Some \<lparr>pattern = searchGlyph @ '' .+'', operation = ''getFileMeta''\<rparr>\<rparr>),
     (''unfurlLink'', (plainFunction ''./link.ts:unfurlCommand'')
        \<lparr>command := Some ((plainCommand ''Link: Unfurl'')
           \<lparr>key := Some ''Ctrl-Shift-u'', mac := Some ''Cmd-Shift-u'',
            contexts := Some [''NakedURL'']\<rparr>)\<rparr>),
     (''unfurlExec'', (plainFunction ''./link.ts:unfurlExec'') \<lparr>env := Some Server\<rparr>),
     (''readPageCloud'', (plainFunction ''./cloud.ts:readFileCloud'')
        \<lparr>pageNamespace := Some \<lparr>pattern = cloudGlyph @ '' .+'', operation = ''readFile''\<rparr>\<rparr>),
     (''getPageMetaCloud'', (plainFunction ''./cloud.ts:getFileMetaCloud'')
        \<lparr>pageNamespace := Some \<lparr>pattern = cloudGlyph @ '' .+'', operation = ''getFileMeta''\<rparr>\<rparr>)]\<rparr>"

section \<open>Regular expressions for page namespaces\<close>

text \<open>
  A JavaScript string is a sequence of UTF-16 code units, and a regular expression
  without the \<open>u\<close> flag matches code unit by code unit. Names and patterns are kept
  here as the UTF-8 bytes of the manifest file; \<open>codeUnits\<close> decodes them (a malformed
  sequence gives U+FFFD) and encodes every code point in one or two code units.
\<close>

fun utf8 :: "nat \<Rightarrow> nat \<Rightarrow> nat list \<Rightarrow> nat list" where
  "utf8 need acc [] = (if need = 0 then [] else [0xFFFD])"
| "utf8 need acc (b # bs) =
     (if need = 0 then
        (if b < 0x80 then b # utf8 0 0 bs
         else if 0xC0 \<le> b \<and> b < 0xE0 then utf8 1 (b - 0xC0) bs
         else if 0xE0 \<le> b \<and> b < 0xF0 then utf8 2 (b - 0xE0) bs
         else if 0xF0 \<le> b \<and> b < 0xF8 then utf8 3 (b - 0xF0) bs
         else 0xFFFD # utf8 0 0 bs)
      else if 0x80 \<le> b \<and> b < 0xC0 then
        (if need = 1 then (acc * 64 + (b - 0x80)) # utf8 0 0 bs
         else utf8 (need - 1) (acc * 64 + (b - 0x80)) bs)
      else 0xFFFD # utf8 0 0 (b # bs))"

definition utf16 :: "nat \<Rightarrow> nat list" where
  "utf16 cp =
     (if cp < 0x10000 then [cp]
      else [0xD800 + (cp - 0x10000) div 0x400, 0xDC00 + (cp - 0x10000) mod 0x400])"

definition codeUnits :: "string \<Rightarrow> nat list" where
  "codeUnits s = concat (map utf16 (utf8 0 0 (map of_char s)))"

text \<open>
  The fragment of the pattern language the manifests use: literal characters, the dot,
  and the postfix operators \<open>+\<close>, \<open>*\<close> and \<open>?\<close>. Any other metacharacter is outside
  the fragment and does not compile. Matching is by derivatives.
\<close>

datatype Rx =
    RxNone
  | RxEps
  | RxChar nat
  | RxDot
  | RxSeq Rx Rx
  | RxAlt Rx Rx
  | RxStar Rx







definition metaChar :: "nat \<Rightarrow> bool" where
  "metaChar u = (u \<in> set (map of_char (''+*?()[]{}|^$'' @ [CHR 0x5C])))"

definition rxAtom :: "nat \<Rightarrow> Rx" where
  "rxAtom u = (if u = of_char (CHR ''.'') then RxDot else RxChar u)"

fun compileUnits :: "nat list \<Rightarrow> Rx option" where
  "compileUnits [] = Some RxEps"
| "compileUnits (c # cs) =
     (if metaChar c then None
      else (case cs of
              p # rest \<Rightarrow>
                (if p = of_char (CHR ''+'') then
                   map_option (RxSeq (RxSeq (rxAtom c) (RxStar (rxAtom c)))) (compileUnits rest)
                 else if p = of_char (CHR ''*'') then
                   map_option (RxSeq (RxStar (rxAtom c))) (compileUnits rest)
                 else if p = of_char (CHR ''?'') then
                   map_option (RxSeq (RxAlt RxEps (rxAtom c))) (compileUnits rest)
                 else map_option (RxSeq (rxAtom c)) (compileUnits cs))
            | [] \<Rightarrow> Some (RxSeq (rxAtom c) RxEps)))"

definition compileRx :: "string \<Rightarrow> Rx option" where
  "compileRx s = compileUnits (codeUnits s)"

section \<open>Plug runtime\<close>

text \<open>
  The editor drives a \<open>System\<close> with an event hook, a command hook and a slash command
  hook. The sources of the runtime (\<open>plugos\<close>, the hooks) are not among the files at
  hand; the definitions of this section follow its design document, section by section.
\<close>

text \<open>
  Modelled from the spec: the data model (section 3) of the runtime, which is not part
  of the sources. A loaded plugin is a manifest bound to a sandbox and a generation; it
  is referred to by its name and generation. A sandbox answers an invocation with a
  result or with one of the three failures.
\<close>

type_synonym PluginRef = "string \<times> nat"

datatype InvokeFailure = TimedOut | Trapped | ThrownError string

type_synonym Sandbox = "string \<Rightarrow> JsValue list \<Rightarrow> InvokeFailure + JsValue"

type_synonym SandboxFactory = "Manifest \<Rightarrow> Sandbox option"

record LoadedPlugin =
  manifest :: Manifest
  sandbox :: Sandbox
  generation :: nat

definition pluginRef :: "LoadedPlugin \<Rightarrow> PluginRef" where
  "pluginRef p = (manifestName (manifest p), generation p)"

text \<open>
  Modelled from the spec: the entries of the hook tables (section 3), which are not part
  of the sources: each carries the declaration, the owning plugin and the function.
\<close>

record CommandEntry =
  commandDef :: CommandDef
  commandOwner :: PluginRef
  commandFunction :: string

record SlashEntry =
  slashDef :: SlashCommandDef
  slashOwner :: PluginRef
  slashFunction :: string

record NamespaceHandler =
  nsPattern :: Rx
  nsOperation :: string
  nsOwner :: PluginRef
  nsFunction :: string

text \<open>
  Modelled from the spec: a syscall binding (sections 3 and 4.3), which is not part of
  the sources: the host implementation, the required environment, the optional
  capability tag, and the plugin that owns the binding, if one does.
\<close>

datatype SyscallError = NotFound | EnvironmentMismatch | Failure string

record SyscallBinding =
  impl :: "JsValue list \<Rightarrow> string + JsValue"
  requiredEnv :: "Env option"
  capability :: "string option"
  bindingOwner :: "PluginRef option"

text \<open>
  Modelled from the spec: the state that the orchestrator owns (sections 2 and 4.6),
  which is not part of the sources: the loaded plugins, the last generation given to
  each plugin name, the tables of the hooks and the syscall registry. The last five
  fields record what happened: sandbox invocations, executed syscall implementations,
  logged subscriber failures, terminated sandboxes and reported load failures.
\<close>

datatype LoadFailure = ValidationError | LoadError

record System =
  runtimeEnv :: Env
  generations :: "(string \<times> nat) list"
  plugins :: "LoadedPlugin list"
  subscriptions :: "(string \<times> PluginRef \<times> string) list"
  commandTable :: "CommandEntry list"
  slashCommands :: "SlashEntry list"
  namespaceHandlers :: "NamespaceHandler list"
  syscalls :: "(string \<times> SyscallBinding) list"
  invocations :: "(PluginRef \<times> string \<times> JsValue list) list"
  executed :: "(string \<times> JsValue list) list"
  hookLog :: "(string \<times> PluginRef \<times> string \<times> InvokeFailure) list"
  terminated :: "PluginRef list"
  loadReports :: "(string \<times> LoadFailure) list"

text \<open>
  Modelled from the spec: the orchestrator's constructor (\<open>new System("client")\<close> in the
  editor) is not part of the sources. A fresh system has empty tables.
\<close>

definition newSystem :: "Env \<Rightarrow> System" where
  "newSystem e =
     \<lparr>runtimeEnv = e, generations = [], plugins = [], subscriptions = [], commandTable = [],
      slashCommands = [], namespaceHandlers = [], syscalls = [], invocations = [],
      executed = [], hookLog = [], terminated = [], loadReports = []\<rparr>"

text \<open>
  Modelled from the spec: the generation counter of a plugin name (glossary), which is
  not part of the sources; a name that was never loaded is at generation 0.
\<close>

definition lookupGen :: "(string \<times> nat) list \<Rightarrow> string \<Rightarrow> nat" where
  "lookupGen gens n = (case map_of gens n of None \<Rightarrow> 0 | Some g \<Rightarrow> g)"

text \<open>
  Modelled from the spec: looking up a loaded plugin by its reference, which is not part
  of the sources.
\<close>

definition findPlugin :: "System \<Rightarrow> PluginRef \<Rightarrow> LoadedPlugin option" where
  "findPlugin sys r = find (\<lambda>p. pluginRef p = r) (plugins sys)"

text \<open>
  Modelled from the spec: \<open>Sandbox.invoke\<close> is not part of the sources. A call into
  the sandbox of a loaded plugin yields a result or one of the three failures and is
  recorded; a reference to a plugin that is no longer loaded resolves to \<open>Trapped\<close>
  and reaches no sandbox.
\<close>

definition invoke ::
  "PluginRef \<Rightarrow> string \<Rightarrow> JsValue list \<Rightarrow> System \<Rightarrow> (InvokeFailure + JsValue) \<times> System" where
  "invoke r fn args sys =
     (case findPlugin sys r of
        None \<Rightarrow> (Inl Trapped, sys)
      | Some p \<Rightarrow>
          (sandbox p fn args, sys\<lparr>invocations := invocations sys @ [(r, fn, args)]\<rparr>))"

subsection \<open>Event hook\<close>

text \<open>
  Modelled from the spec: \<open>EventHook.subscribe\<close> is not part of the sources.
  Subscribing is idempotent; a new subscriber goes to the end.
\<close>

definition subscribe :: "string \<Rightarrow> PluginRef \<Rightarrow> string \<Rightarrow> System \<Rightarrow> System" where
  "subscribe ev r fn sys =
     (if (ev, r, fn) \<in> set (subscriptions sys) then sys
      else sys\<lparr>subscriptions := subscriptions sys @ [(ev, r, fn)]\<rparr>)"

text \<open>
  Modelled from the spec: the subscribers of an event, in registration order; the
  subscription table is not part of the sources.
\<close>

definition subscribers :: "System \<Rightarrow> string \<Rightarrow> (PluginRef \<times> string) list" where
  "subscribers sys ev = map snd (filter (\<lambda>s. fst s = ev) (subscriptions sys))"

text \<open>
  Modelled from the spec: \<open>EventHook.dispatchEvent\<close> is not part of the sources. Every
  subscriber of the event is invoked with the payload, in registration order; a success
  adds its value to the results, a failure is logged and adds nothing, and the loop goes
  on with the next subscriber.
\<close>

fun dispatchLoop ::
  "string \<Rightarrow> JsValue \<Rightarrow> (PluginRef \<times> string) list \<Rightarrow> JsValue list \<Rightarrow> System
     \<Rightarrow> JsValue list \<times> System" where
  "dispatchLoop ev payload [] acc sys = (acc, sys)"
| "dispatchLoop ev payload ((r, fn) # rest) acc sys =
     (case invoke r fn [payload] sys of
        (Inr v, sys') \<Rightarrow> dispatchLoop ev payload rest (acc @ [v]) sys'
      | (Inl f, sys') \<Rightarrow>
          dispatchLoop ev payload rest acc (sys'\<lparr>hookLog := hookLog sys' @ [(ev, r, fn, f)]\<rparr>))"

text \<open>
  Modelled from the spec: \<open>EventHook.dispatchEvent\<close>, which is not part of the sources,
  runs the loop over the subscribers that the event has when the dispatch starts.
\<close>

definition dispatchEvent :: "string \<Rightarrow> JsValue \<Rightarrow> System \<Rightarrow> JsValue list \<times> System" where
  "dispatchEvent ev payload sys = dispatchLoop ev payload (subscribers sys ev) [] sys"

subsection \<open>Syscall registry\<close>

text \<open>Setting a key of a table kept as a list: an entry of that key is replaced.\<close>

definition bind :: "string \<Rightarrow> 'b \<Rightarrow> (string \<times> 'b) list \<Rightarrow> (string \<times> 'b) list" where
  "bind n b tab = filter (\<lambda>e. fst e \<noteq> n) tab @ [(n, b)]"

text \<open>
  Modelled from the spec: the syscall registry is not part of the sources.
  \<open>register(name, env, impl)\<close> overwrites a binding of the same name.
\<close>

definition register ::
  "string \<Rightarrow> Env option \<Rightarrow> (JsValue list \<Rightarrow> string + JsValue) \<Rightarrow> System \<Rightarrow> System" where
  "register n e f sys =
     sys\<lparr>syscalls :=
       bind n \<lparr>impl = f, requiredEnv = e, capability = None, bindingOwner = None\<rparr> (syscalls sys)\<rparr>"

text \<open>
  Modelled from the spec: \<open>System.registerSyscalls\<close> is not part of the sources. The
  editor calls it with an empty capability list and tables of named implementations.
\<close>

definition registerSyscalls ::
  "string list \<Rightarrow> (string \<times> (JsValue list \<Rightarrow> string + JsValue)) list \<Rightarrow> System \<Rightarrow> System" where
  "registerSyscalls caps tab sys = fold (\<lambda>(n, f). register n None f) tab sys"

text \<open>
  Modelled from the spec: \<open>dispatch(callerEnv, name, args)\<close> of the syscall registry is
  not part of the sources. An unknown name is \<open>NotFound\<close>; a binding that requires
  another environment than the caller's is \<open>EnvironmentMismatch\<close>; otherwise the
  implementation runs, and its run is recorded.
\<close>

definition syscallDispatch ::
  "Env \<Rightarrow> string \<Rightarrow> JsValue list \<Rightarrow> System \<Rightarrow> (SyscallError + JsValue) \<times> System" where
  "syscallDispatch callerEnv n args sys =
     (case map_of (syscalls sys) n of
        None \<Rightarrow> (Inl NotFound, sys)
      | Some b \<Rightarrow>
          (if requiredEnv b \<noteq> None \<and> requiredEnv b \<noteq> Some callerEnv
           then (Inl EnvironmentMismatch, sys)
           else ((case impl b args of Inl msg \<Rightarrow> Inl (Failure msg) | Inr v \<Rightarrow> Inr v),
                 sys\<lparr>executed := executed sys @ [(n, args)]\<rparr>)))"

subsection \<open>Page namespace routing\<close>



subsection \<open>Loading and unloading\<close>

text \<open>
  Modelled from the spec: the checks of \<open>parse(raw)\<close> on one function; the manifest model
  is not part of the sources. The spec does not say what makes a keybinding string
  well-formed; here it is any string that is not empty.
\<close>

definition validKey :: "string option \<Rightarrow> bool" where
  "validKey k = (case k of None \<Rightarrow> True | Some s \<Rightarrow> s \<noteq> [])"

text \<open>
  Modelled from the spec: a function is valid when its namespace pattern compiles and
  its keybindings are well-formed; the manifest model is not part of the sources.
\<close>

definition validFunction :: "FunctionDef \<Rightarrow> bool" where
  "validFunction fd =
     ((case pageNamespace fd of None \<Rightarrow> True | Some ns \<Rightarrow> compileRx (pattern ns) \<noteq> None)
      \<and> (case command fd of None \<Rightarrow> True | Some c \<Rightarrow> validKey (key c) \<and> validKey (mac c)))"

text \<open>
  Modelled from the spec: \<open>parse(raw)\<close> of the manifest model is not part of the sources.
  Function names are unique, namespace patterns compile, keybinding strings are not
  empty; the environment tags are recognised by their type.
\<close>

definition validManifest :: "Manifest \<Rightarrow> bool" where
  "validManifest m =
     (distinct (map fst (functionDefs m)) \<and> list_all (\<lambda>e. validFunction (snd e)) (functionDefs m))"

text \<open>
  Modelled from the spec: registering a command; the command hook is not part of the
  sources. Command names are unique in the table, and the last registration wins
  (section 9).
\<close>

definition registerCommand :: "PluginRef \<Rightarrow> string \<Rightarrow> CommandDef \<Rightarrow> System \<Rightarrow> System" where
  "registerCommand r fn c sys =
     sys\<lparr>commandTable :=
       filter (\<lambda>e. name (commandDef e) \<noteq> name c) (commandTable sys)
         @ [\<lparr>commandDef = c, commandOwner = r, commandFunction = fn\<rparr>]\<rparr>"

text \<open>
  Modelled from the spec: registering a slash command; the slash command hook is not
  part of the sources.
\<close>

definition registerSlash :: "PluginRef \<Rightarrow> string \<Rightarrow> SlashCommandDef \<Rightarrow> System \<Rightarrow> System" where
  "registerSlash r fn c sys =
     sys\<lparr>slashCommands := slashCommands sys @ [\<lparr>slashDef = c, slashOwner = r, slashFunction = fn\<rparr>]\<rparr>"

text \<open>
  Modelled from the spec: registering a page namespace handler with its compiled
  pattern; the page namespace hook is not part of the sources.
\<close>

definition registerNamespace :: "PluginRef \<Rightarrow> string \<Rightarrow> PageNamespaceDef \<Rightarrow> System \<Rightarrow> System" where
  "registerNamespace r fn ns sys =
     (case compileRx (pattern ns) of
        None \<Rightarrow> sys
      | Some rx \<Rightarrow>
          sys\<lparr>namespaceHandlers := namespaceHandlers sys
            @ [\<lparr>nsPattern = rx, nsOperation = operation ns, nsOwner = r, nsFunction = fn\<rparr>]\<rparr>)"

text \<open>
  Modelled from the spec: the message of a failed invocation, as the caller sees it; the
  sandbox is not part of the sources.
\<close>

definition failureMessage :: "InvokeFailure \<Rightarrow> string" where
  "failureMessage f =
     (case f of TimedOut \<Rightarrow> ''Timed out'' | Trapped \<Rightarrow> ''Trapped'' | ThrownError m \<Rightarrow> m)"

text \<open>
  Modelled from the spec: a function of a sandbox as the implementation of a binding;
  the sandbox is not part of the sources.
\<close>

definition sandboxImpl :: "Sandbox \<Rightarrow> string \<Rightarrow> JsValue list \<Rightarrow> string + JsValue" where
  "sandboxImpl sb fn args =
     (case sb fn args of Inl f \<Rightarrow> Inl (failureMessage f) | Inr v \<Rightarrow> Inr v)"

text \<open>
  Modelled from the spec: the entry of the syscall registry that a plugin owns for one
  of its functions; the registry is not part of the sources. The spec does not say
  which entries a plugin owns; here each function is bound under \<open>plugin.function\<close>
  with the function's environment.
\<close>

definition registerBinding :: "PluginRef \<Rightarrow> Sandbox \<Rightarrow> string \<Rightarrow> FunctionDef \<Rightarrow> System \<Rightarrow> System" where
  "registerBinding r sb fn fd sys =
     sys\<lparr>syscalls :=
       bind (fst r @ ''.'' @ fn)
         \<lparr>impl = sandboxImpl sb fn, requiredEnv = env fd, capability = None,
          bindingOwner = Some r\<rparr> (syscalls sys)\<rparr>"

text \<open>Applying a registration to a trigger that a function may or may not declare.\<close>

definition whenSome :: "('a \<Rightarrow> System \<Rightarrow> System) \<Rightarrow> 'a option \<Rightarrow> System \<Rightarrow> System" where
  "whenSome f x sys = (case x of None \<Rightarrow> sys | Some v \<Rightarrow> f v sys)"

text \<open>
  Modelled from the spec: registering the triggers of one function is not part of the
  sources. Its events go to the event hook, its command to the command hook, its slash
  command to the slash command hook, its page namespace to the namespace handlers, and
  its binding to the syscall registry.
\<close>

definition registerFunction :: "PluginRef \<Rightarrow> Sandbox \<Rightarrow> string \<times> FunctionDef \<Rightarrow> System \<Rightarrow> System" where
  "registerFunction r sb e sys =
     registerBinding r sb (fst e) (snd e)
       (whenSome (registerNamespace r (fst e)) (pageNamespace (snd e))
         (whenSome (registerSlash r (fst e)) (slashCommand (snd e))
           (whenSome (registerCommand r (fst e)) (command (snd e))
             (fold (\<lambda>ev. subscribe ev r (fst e)) (events (snd e)) sys))))"

text \<open>
  Modelled from the spec: \<open>System.load\<close> is not part of the sources. The manifest is
  validated, a sandbox is instantiated, the plugin gets the next generation of its name
  and its triggers are registered.
\<close>

definition load :: "Manifest \<Rightarrow> SandboxFactory \<Rightarrow> System \<Rightarrow> LoadFailure + System" where
  "load m factory sys =
     (if \<not> validManifest m then Inl ValidationError
      else (case factory m of
              None \<Rightarrow> Inl LoadError
            | Some sb \<Rightarrow>
                (let n = manifestName m;
                     g = Suc (lookupGen (generations sys) n);
                     s1 = sys\<lparr>generations := bind n g (generations sys),
                              plugins := plugins sys @ [\<lparr>manifest = m, sandbox = sb, generation = g\<rparr>]\<rparr>
                 in Inr (fold (registerFunction (n, g) sb) (functionDefs m) s1))))"

text \<open>
  Modelled from the spec: \<open>loadAll\<close> is not part of the sources. A plugin that fails to
  load is skipped and reported; the others are loaded.
\<close>

definition loadAll :: "Manifest list \<Rightarrow> SandboxFactory \<Rightarrow> System \<Rightarrow> System" where
  "loadAll ms factory sys =
     fold (\<lambda>m s. case load m factory s of
                   Inl f \<Rightarrow> s\<lparr>loadReports := loadReports s @ [(manifestName m, f)]\<rparr>
                 | Inr s' \<Rightarrow> s') ms sys"

text \<open>
  Modelled from the spec: unloading is not part of the sources. The plugin is
  unsubscribed from every hook, its sandbox is terminated and the syscall bindings it
  owns are cleared.
\<close>

definition unloadPlugin :: "PluginRef \<Rightarrow> System \<Rightarrow> System" where
  "unloadPlugin r sys =
     sys\<lparr>plugins := filter (\<lambda>p. pluginRef p \<noteq> r) (plugins sys),
         subscriptions := filter (\<lambda>s. fst (snd s) \<noteq> r) (subscriptions sys),
         commandTable := filter (\<lambda>e. commandOwner e \<noteq> r) (commandTable sys),
         slashCommands := filter (\<lambda>e. slashOwner e \<noteq> r) (slashCommands sys),
         namespaceHandlers := filter (\<lambda>h. nsOwner h \<noteq> r) (namespaceHandlers sys),
         syscalls := filter (\<lambda>e. bindingOwner (snd e) \<noteq> Some r) (syscalls sys),
         terminated := terminated sys @ [r]\<rparr>"

text \<open>
  Modelled from the spec: \<open>unloadAll\<close> is not part of the sources. Every loaded plugin
  is unloaded; with nothing loaded nothing changes.
\<close>

definition unloadAll :: "System \<Rightarrow> System" where
  "unloadAll sys = fold unloadPlugin (map pluginRef (plugins sys)) sys"

text \<open>
  Modelled from the spec: \<open>reload\<close> is not part of the sources. It is \<open>unloadAll()\<close>
  followed by \<open>loadAll()\<close>.
\<close>

definition reload :: "Manifest list \<Rightarrow> SandboxFactory \<Rightarrow> System \<Rightarrow> System" where
  "reload ms factory sys = loadAll ms factory (unloadAll sys)"

section \<open>The editor\<close>

subsection \<open>Pages and the space\<close>

text \<open>
  A page as \<open>space.readPage\<close> returns it: the text and the meta data (name, time of the
  last modification, permission \<open>"ro"\<close> or \<open>"rw"\<close>).
\<close>

datatype Perm = RO | RW

record PageMeta =
  metaName :: string
  lastModified :: int
  perm :: Perm

record Doc =
  docText :: string
  docMeta :: PageMeta

text \<open>
  Modelled from the spec: the space (page storage, a collaborator of the runtime by
  section 1) is not part of the sources, and the spec leaves its implementation open.
  Here it keeps the stored pages and the plug files, fails every request while it is
  not reachable, and records the calls to \<open>writePage\<close> and the watched pages.
\<close>

record Space =
  pages :: "(string \<times> Doc) list"
  plugFiles :: "(string \<times> Manifest option) list"
  online :: bool
  writes :: "(string \<times> string) list"
  watched :: "string list"

text \<open>
  Modelled from the spec: \<open>Space.readPage\<close> is not part of the sources. It throws for a
  page that is not stored and while the space is not reachable.
\<close>

definition readPage :: "Space \<Rightarrow> string \<Rightarrow> JsError + Doc" where
  "readPage sp n =
     (if \<not> online sp then Inl (Error ''Offline'')
      else (case map_of (pages sp) n of
              None \<Rightarrow> Inl (Error ''Page not found'')
            | Some d \<Rightarrow> Inr d))"

text \<open>
  Modelled from the spec: \<open>Space.writePage\<close> is not part of the sources. The call is
  recorded; it stores the text under the name with fresh meta data, or throws while the
  space is not reachable.
\<close>

definition writePage :: "Space \<Rightarrow> string \<Rightarrow> string \<Rightarrow> nat \<Rightarrow> (JsError + PageMeta) \<times> Space" where
  "writePage sp n txt now =
     (let sp1 = sp\<lparr>writes := writes sp @ [(n, txt)]\<rparr>;
          m = \<lparr>metaName = n, lastModified = int now, perm = RW\<rparr>
      in if \<not> online sp then (Inl (Error ''Offline''), sp1)
         else (Inr m, sp1\<lparr>pages := bind n \<lparr>docText = txt, docMeta = m\<rparr> (pages sp1)\<rparr>))"

text \<open>
  Modelled from the spec: \<open>Space.watchPage\<close> and \<open>Space.unwatchPage\<close> are not part of
  the sources; they keep the list of watched pages.
\<close>

definition watchPage :: "string \<Rightarrow> Space \<Rightarrow> Space" where
  "watchPage n sp = sp\<lparr>watched := watched sp @ [n]\<rparr>"

definition unwatchPage :: "string \<Rightarrow> Space \<Rightarrow> Space" where
  "unwatchPage n sp = sp\<lparr>watched := filter (\<lambda>w. w \<noteq> n) (watched sp)\<rparr>"

subsection \<open>Editor state\<close>

text \<open>
  The editor view of the editing library, as far as the editor reads and writes it: the
  document, the main selection, the scroll position, the key bindings of the state, the
  \<open>contenteditable\<close> attribute and the focus. A command of the command hook is a
  declaration with a \<open>run\<close> closure; the closure acts on the system.
\<close>

record Selection =
  anchor :: nat
  head :: nat

record PageState =
  scrollTop :: nat
  selection :: Selection

record AppCommand =
  appCommand :: CommandDef
  run :: "System \<Rightarrow> (InvokeFailure + JsValue) \<times> System"

text \<open>
  The view state and its actions are declared outside the sources; these are the fields
  the editor reads and the actions it dispatches.
\<close>

datatype NotificationType = Info | ErrorNote

record Notification =
  noteId :: nat
  noteType :: NotificationType
  message :: string
  date :: nat

datatype Action =
    UpdateCommands "(string \<times> AppCommand) list"
  | ShowPalette "string option"
  | StartNavigate
  | PagesListed "PageMeta list"
  | PageLoading string
  | PageLoaded PageMeta
  | PageChanged
  | PageSaved
  | ShowNotification Notification
  | DismissNotification nat

record AppViewState =
  currentPage :: "string option"
  viewPerm :: Perm
  forcedROMode :: bool
  unsavedChanges :: bool
  commands :: "(string \<times> AppCommand) list"

datatype KeyRun = RunCommand AppCommand | NavigateKey | PaletteKey | CenterKey

record KeyBinding =
  bindKey :: string
  bindMac :: "string option"
  bindRun :: KeyRun

record EditorState =
  doc :: string
  stateSelection :: Selection
  keyBindings :: "KeyBinding list"

record EditorView =
  state :: EditorState
  viewScrollTop :: nat
  contentEditable :: bool
  focused :: bool

record CollabState =
  ytext :: string

text \<open>
  The callbacks the editor hands to \<open>setTimeout\<close>: the one armed by \<open>save\<close>, the retry
  after a failed write (\<open>this.save.bind(this)\<close>), and the dismissal of a notification.
\<close>

datatype TimerCallback = SaveCallback | RetrySave | DismissCallback nat

record Timer =
  timerId :: nat
  due :: nat
  callback :: TimerCallback

datatype Settlement = Resolved | Rejected JsError

text \<open>
  The fields of the \<open>Editor\<close> class, followed by what the editor takes from its host:
  the reducer behind \<open>viewDispatch\<close>, the timer queue with a logical clock in
  milliseconds, the promises returned by \<open>save\<close> that have settled (each named by
  the handle of the timer its call armed), the calls of \<open>writePage\<close> whose promise has
  not settled yet (with the save call they belong to and the outcome they will have),
  the console, the draws of \<open>Math.random\<close>, the syntax tree lookup, the sandbox
  factory and the markdown extension functions.
\<close>

record Editor =
  openPages :: "(string \<times> PageState) list"
  editorView :: "EditorView option"
  viewState :: AppViewState
  space :: Space
  saveTimeout :: "nat option"
  system :: System
  mdExtensions :: "string list"
  collabState :: "CollabState option"
  reducer :: "AppViewState \<Rightarrow> Action \<Rightarrow> AppViewState"
  clock :: nat
  timerSeq :: nat
  timers :: "Timer list"
  promises :: "(nat \<times> Settlement) list"
  inflight :: "(nat \<times> (JsError + PageMeta)) list"
  console :: "string list"
  randoms :: "nat list"
  syntaxNode :: "string \<Rightarrow> nat \<Rightarrow> string"
  createSandbox :: SandboxFactory
  loadMarkdownExtensions :: "System \<Rightarrow> string list"
  markdownSyscalls :: "string list \<Rightarrow> (string \<times> (JsValue list \<Rightarrow> string + JsValue)) list"

definition saveInterval :: nat where
  "saveInterval = 1000"

definition viewDispatch :: "Action \<Rightarrow> Editor \<Rightarrow> Editor" where
  "viewDispatch a e = e\<lparr>viewState := reducer e (viewState e) a\<rparr>"

definition consoleLog :: "string \<Rightarrow> Editor \<Rightarrow> Editor" where
  "consoleLog msg e = e\<lparr>console := console e @ [msg]\<rparr>"

subsection \<open>Timers\<close>

text \<open>
  \<open>setTimeout\<close> hands out positive handles; the handle of the timer just armed is
  \<open>timerSeq\<close> of the resulting state. \<open>clearTimeout\<close> of a handle that is not pending
  does nothing.
\<close>

definition setTimeout :: "TimerCallback \<Rightarrow> nat \<Rightarrow> Editor \<Rightarrow> Editor" where
  "setTimeout cb delay e =
     e\<lparr>timerSeq := Suc (timerSeq e),
       timers := timers e @ [\<lparr>timerId = Suc (timerSeq e), due = clock e + delay, callback = cb\<rparr>]\<rparr>"

definition clearTimeout :: "nat \<Rightarrow> Editor \<Rightarrow> Editor" where
  "clearTimeout tid e = e\<lparr>timers := filter (\<lambda>t. timerId t \<noteq> tid) (timers e)\<rparr>"

definition flashNotification :: "string \<Rightarrow> NotificationType \<Rightarrow> Editor \<Rightarrow> Editor" where
  "flashNotification msg ty e =
     (let i = (case randoms e of [] \<Rightarrow> 0 | r # _ \<Rightarrow> r);
          e1 = e\<lparr>randoms := tl (randoms e)\<rparr>;
          e2 = viewDispatch (ShowNotification
                 \<lparr>noteId = i, noteType = ty, message = msg, date = clock e\<rparr>) e1
      in setTimeout (DismissCallback i) (if ty = Info then 2000 else 5000) e2)"

subsection \<open>Saving\<close>

text \<open>
  \<open>save(immediate)\<close>: clear the timer whose handle is in \<open>saveTimeout\<close>, arm a new
  one and keep its handle. The promise it returns is settled by the timer's callback or
  by the handlers of the write that the callback starts.
\<close>

definition save :: "bool \<Rightarrow> Editor \<Rightarrow> Editor" where
  "save immediate e =
     (let e1 = (case saveTimeout e of
                  None \<Rightarrow> e
                | Some t \<Rightarrow> if t \<noteq> 0 then clearTimeout t e else e);
          e2 = setTimeout SaveCallback (if immediate then 0 else saveInterval) e1
      in e2\<lparr>saveTimeout := Some (timerSeq e2)\<rparr>)"

text \<open>
  The callback armed by \<open>save\<close>, for the save call whose timer has the given handle.
  With nothing to save it resolves the promise of that call. Otherwise it hands the text
  to \<open>writePage\<close> and returns: the request is in flight, and its \<open>then\<close> and \<open>catch\<close>
  handlers run in a later turn of the event loop. Without an editor view the slice of
  the document throws inside the callback and the promise stays pending.
\<close>

definition settle :: "nat \<Rightarrow> Settlement \<Rightarrow> Editor \<Rightarrow> Editor" where
  "settle tid st e = e\<lparr>promises := promises e @ [(tid, st)]\<rparr>"

definition saveCallback :: "nat \<Rightarrow> Editor \<Rightarrow> Editor" where
  "saveCallback tid e =
     (case currentPage (viewState e) of
        None \<Rightarrow> settle tid Resolved e
      | Some page \<Rightarrow>
          (if page = [] then settle tid Resolved e
           else if \<not> unsavedChanges (viewState e) \<or> forcedROMode (viewState e)
           then settle tid Resolved e
           else (let e1 = consoleLog (''Saving page '' @ page) e
                 in (case editorView e1 of
                       None \<Rightarrow> consoleLog ''TypeError: editorView is undefined'' e1
                     | Some v \<Rightarrow>
                         (case writePage (space e1) page (doc (state v)) (clock e1) of
                            (r, sp) \<Rightarrow>
                              e1\<lparr>space := sp, inflight := inflight e1 @ [(tid, r)]\<rparr>)))))"

text \<open>
  The promise of a \<open>writePage\<close> in flight settles. On success \<open>page-saved\<close> is
  dispatched and the promise of the save call is resolved. On failure the \<open>catch\<close>
  handler shows a notification, arms the retry and puts its handle into \<open>saveTimeout\<close>
  (whatever handle was there is overwritten, not cleared), and rejects the promise.
\<close>

definition writeSettled :: "nat \<Rightarrow> Editor \<Rightarrow> Editor" where
  "writeSettled tid e =
     (case map_of (inflight e) tid of
        None \<Rightarrow> e
      | Some r \<Rightarrow>
          (let e1 = e\<lparr>inflight := filter (\<lambda>w. fst w \<noteq> tid) (inflight e)\<rparr>
           in (case r of
                 Inr m \<Rightarrow> settle tid Resolved (viewDispatch PageSaved e1)
               | Inl err \<Rightarrow>
                   (let e2 = flashNotification
                               ''Could not save page, retrying again in 10 seconds'' ErrorNote e1;
                        e3 = setTimeout RetrySave 10000 e2
                    in settle tid (Rejected err) (e3\<lparr>saveTimeout := Some (timerSeq e3)\<rparr>)))))"

text \<open>
  One turn of the event loop for the pending timer with the given handle: the timer
  leaves the queue, the clock reaches its due time and its callback runs. A handle that
  is not pending fires nothing.
\<close>

definition fireTimer :: "nat \<Rightarrow> Editor \<Rightarrow> Editor" where
  "fireTimer tid e =
     (case find (\<lambda>t. timerId t = tid) (timers e) of
        None \<Rightarrow> e
      | Some t \<Rightarrow>
          (let e1 = e\<lparr>timers := filter (\<lambda>t. timerId t \<noteq> tid) (timers e),
                      clock := max (clock e) (due t)\<rparr>
           in (case callback t of
                 SaveCallback \<Rightarrow> saveCallback tid e1
               | RetrySave \<Rightarrow> save False e1
               | DismissCallback i \<Rightarrow> viewDispatch (DismissNotification i) e1)))"

text \<open>
  What can happen in the editor between two steps of an asynchronous function: time
  passes, somebody calls \<open>save\<close> (the update listener does on every change of the
  document), a pending timer fires, or a write in flight settles.
\<close>

datatype Turn = Wait nat | CallSave bool | Fire nat | WriteSettled nat

fun turn :: "Turn \<Rightarrow> Editor \<Rightarrow> Editor" where
  "turn (Wait n) e = e\<lparr>clock := clock e + n\<rparr>"
| "turn (CallSave immediate) e = save immediate e"
| "turn (Fire tid) e = fireTimer tid e"
| "turn (WriteSettled tid) e = writeSettled tid e"

fun turns :: "Turn list \<Rightarrow> Editor \<Rightarrow> Editor" where
  "turns [] e = e"
| "turns (t # ts) e = turns ts (turn t e)"

text \<open>
  The editor in which the caller awaiting the promise of a save call resumes: the turns
  happen in order until one settles the promise. When they are used up, the timer of
  the call fires if it is still pending, and its write settles. If the promise is
  pending even then (the timer was cleared by a later \<open>save\<close>, or the callback threw),
  nothing is left that could settle it.
\<close>

fun resume :: "nat \<Rightarrow> Turn list \<Rightarrow> Editor \<Rightarrow> Editor" where
  "resume tid [] e =
     (if map_of (promises e) tid = None then writeSettled tid (fireTimer tid e) else e)"
| "resume tid (t # ts) e =
     (if map_of (promises e) tid = None then resume tid ts (turn t e) else e)"

text \<open>
  \<open>await this.save(immediate)\<close>, with the turns of the event loop that follow the call.
\<close>

definition awaitSave :: "bool \<Rightarrow> Turn list \<Rightarrow> Editor \<Rightarrow> unit Outcome \<times> Editor" where
  "awaitSave immediate during e =
     (let e1 = save immediate e;
          e2 = resume (timerSeq e1) during e1
      in (case map_of (promises e2) (timerSeq e1) of
            None \<Rightarrow> (NeverSettles, e2)
          | Some Resolved \<Rightarrow> (Returns (), e2)
          | Some (Rejected err) \<Rightarrow> (Throws err, e2)))"

text \<open>A burst of triggers: calls of \<open>save\<close>, each after some time, with no timer fired in between.\<close>

fun burst :: "(nat \<times> bool) list \<Rightarrow> Editor \<Rightarrow> Editor" where
  "burst [] e = e"
| "burst ((gap, immediate) # rest) e = burst rest (save immediate (e\<lparr>clock := clock e + gap\<rparr>))"

subsection \<open>Events and commands\<close>

definition dispatchAppEvent :: "string \<Rightarrow> JsValue \<Rightarrow> Editor \<Rightarrow> JsValue list \<times> Editor" where
  "dispatchAppEvent ev payload e =
     (case dispatchEvent ev payload (system e) of (rs, sys) \<Rightarrow> (rs, e\<lparr>system := sys\<rparr>))"

text \<open>
  The loop of \<open>completer\<close> over the results of \<open>page:complete\<close>: the first truthy result
  is kept; a second one is reported on the console and ends the loop with \<open>null\<close>.
\<close>

fun completerLoop :: "JsValue \<Rightarrow> JsValue list \<Rightarrow> JsValue \<times> string list" where
  "completerLoop actualResult [] = (actualResult, [])"
| "completerLoop actualResult (r # rs) =
     (if truthy r then
        (if truthy actualResult
         then (JNull, [''Got completion results from multiple sources, cannot deal with that''])
         else completerLoop r rs)
      else completerLoop actualResult rs)"

definition completer :: "Editor \<Rightarrow> JsValue \<times> Editor" where
  "completer e =
     (case dispatchAppEvent ''page:complete'' JUndefined e of
        (results, e1) \<Rightarrow>
          (case completerLoop JNull results of
             (r, errs) \<Rightarrow> (r, e1\<lparr>console := console e1 @ errs\<rparr>)))"

text \<open>
  Modelled from the spec: the command hook is not part of the sources. Its
  \<open>editorCommands\<close> are recomputed from the command table; running one invokes the owning
  function in its plugin's sandbox.
\<close>

definition editorCommands :: "System \<Rightarrow> (string \<times> AppCommand) list" where
  "editorCommands sys =
     map (\<lambda>c. (name (commandDef c),
               \<lparr>appCommand = commandDef c, run = invoke (commandOwner c) (commandFunction c) []\<rparr>))
         (commandTable sys)"

text \<open>The listener the constructor gives to the command hook.\<close>

definition commandsUpdated :: "Editor \<Rightarrow> Editor" where
  "commandsUpdated e = viewDispatch (UpdateCommands (editorCommands (system e))) e"

text \<open>
  \<open>runCommandByName\<close> awaits the command and has no return statement: it resolves to
  \<open>undefined\<close>, rejects with the command's failure, and throws for an unknown name.
\<close>

definition runCommandByName :: "string \<Rightarrow> Editor \<Rightarrow> JsValue Outcome \<times> Editor" where
  "runCommandByName n e =
     (case map_of (commands (viewState e)) n of
        Some cmd \<Rightarrow>
          (case run cmd (system e) of
             (Inr v, sys) \<Rightarrow> (Returns JUndefined, e\<lparr>system := sys\<rparr>)
           | (Inl f, sys) \<Rightarrow> (Throws (Error (failureMessage f)), e\<lparr>system := sys\<rparr>))
      | None \<Rightarrow> (Throws (Error (''Command '' @ n @ '' not found'')), e))"

definition focus :: "Editor \<Rightarrow> Editor" where
  "focus e = e\<lparr>editorView := map_option (\<lambda>v. v\<lparr>focused := True\<rparr>) (editorView e)\<rparr>"

text \<open>
  \<open>getContext\<close>: the name of the innermost syntax node at an empty selection, and
  \<open>undefined\<close> for a selection that is not empty.
\<close>

definition getContext :: "Editor \<Rightarrow> string option Outcome" where
  "getContext e =
     (case editorView e of
        None \<Rightarrow> Throws (Error ''TypeError: editorView is undefined'')
      | Some v \<Rightarrow>
          (let sel = stateSelection (state v)
           in if anchor sel = head sel
              then Returns (Some (syntaxNode e (doc (state v)) (min (anchor sel) (head sel))))
              else Returns None))"

text \<open>
  The body of a command's key binding once its context filter has passed: the command
  runs, a failure is reported with a notification, the editor gets the focus, and the
  handler has returned \<open>true\<close>.
\<close>

definition runAndFocus :: "AppCommand \<Rightarrow> Editor \<Rightarrow> Editor" where
  "runAndFocus def e =
     (case run def (system e) of
        (Inr v, sys) \<Rightarrow> focus (e\<lparr>system := sys\<rparr>)
      | (Inl f, sys) \<Rightarrow>
          focus (flashNotification (''Error running command: '' @ failureMessage f) ErrorNote
                   (consoleLog (failureMessage f) (e\<lparr>system := sys\<rparr>))))"

text \<open>
  Modelled from the spec: \<open>Space.updatePageList\<close> is not part of the sources. It throws
  while the space is not reachable; otherwise the listener set up in \<open>init\<close> lists the
  pages in the view state.
\<close>

definition updatePageList :: "Editor \<Rightarrow> unit Outcome \<times> Editor" where
  "updatePageList e =
     (if \<not> online (space e) then (Throws (Error ''Offline''), e)
      else (Returns (), viewDispatch (PagesListed (map (\<lambda>p. docMeta (snd p)) (pages (space e)))) e))"

text \<open>
  The \<open>run\<close> closure of a key binding. For a command with a \<open>contexts\<close> list the
  handler returns \<open>false\<close> unless the context is truthy and in the list.
\<close>

definition runKeyBinding :: "KeyRun \<Rightarrow> Editor \<Rightarrow> bool Outcome \<times> Editor" where
  "runKeyBinding r e =
     (case r of
        RunCommand def \<Rightarrow>
          (case contexts (appCommand def) of
             None \<Rightarrow> (Returns True, runAndFocus def e)
           | Some ctxs \<Rightarrow>
               (case getContext e of
                  Returns ctx \<Rightarrow>
                    (if \<not> truthyStr ctx \<or> the ctx \<notin> set ctxs then (Returns False, e)
                     else (Returns True, runAndFocus def e))
                | Throws err \<Rightarrow> (Throws err, e)
                | NeverSettles \<Rightarrow> (NeverSettles, e)))
      | NavigateKey \<Rightarrow> (Returns True, snd (updatePageList (viewDispatch StartNavigate e)))
      | PaletteKey \<Rightarrow>
          (case getContext e of
             Returns ctx \<Rightarrow> (Returns True, viewDispatch (ShowPalette ctx) e)
           | Throws err \<Rightarrow> (Throws err, e)
           | NeverSettles \<Rightarrow> (NeverSettles, e))
      | CenterKey \<Rightarrow> (Returns True, e))"

text \<open>
  \<open>createEditorState\<close>: one key binding for every editor command with a truthy key,
  then the three bindings of the editor itself; the document is the collab text while a
  collab session is attached.
\<close>

definition commandKeyBindings :: "(string \<times> AppCommand) list \<Rightarrow> KeyBinding list" where
  "commandKeyBindings cmds =
     map (\<lambda>def. \<lparr>bindKey = the (key (appCommand def)), bindMac = mac (appCommand def),
                 bindRun = RunCommand def\<rparr>)
         (filter (\<lambda>def. truthyStr (key (appCommand def))) (map snd cmds))"

definition createEditorState :: "string \<Rightarrow> string \<Rightarrow> Editor \<Rightarrow> EditorState" where
  "createEditorState pageName txt e =
     \<lparr>doc = (case collabState e of Some c \<Rightarrow> ytext c | None \<Rightarrow> txt),
      stateSelection = \<lparr>anchor = 0, head = 0\<rparr>,
      keyBindings = commandKeyBindings (editorCommands (system e))
        @ [\<lparr>bindKey = ''Ctrl-k'', bindMac = Some ''Cmd-k'', bindRun = NavigateKey\<rparr>,
           \<lparr>bindKey = ''Ctrl-/'', bindMac = Some ''Cmd-/'', bindRun = PaletteKey\<rparr>,
           \<lparr>bindKey = ''Ctrl-l'', bindMac = Some ''Cmd-l'', bindRun = CenterKey\<rparr>]\<rparr>"

subsection \<open>Loading a page\<close>

definition setState :: "EditorState \<Rightarrow> Editor \<Rightarrow> Editor" where
  "setState st e = e\<lparr>editorView := map_option (\<lambda>v. v\<lparr>state := st\<rparr>) (editorView e)\<rparr>"

definition tweakEditorDOM :: "bool \<Rightarrow> Editor \<Rightarrow> Editor" where
  "tweakEditorDOM readOnly e =
     e\<lparr>editorView :=
         map_option (\<lambda>v. v\<lparr>contentEditable := \<not> (readOnly \<or> forcedROMode (viewState e))\<rparr>)
           (editorView e)\<rparr>"

text \<open>\<open>saveState\<close> is called only where the editor view exists.\<close>

definition saveState :: "string \<Rightarrow> Editor \<Rightarrow> Editor" where
  "saveState page e =
     (case editorView e of
        None \<Rightarrow> e
      | Some v \<Rightarrow>
          e\<lparr>openPages :=
              bind page \<lparr>scrollTop = viewScrollTop v, selection = stateSelection (state v)\<rparr>
                (openPages e)\<rparr>)"

text \<open>
  \<open>editorView.dispatch\<close> of a transaction that sets the selection. The editing library
  checks the selection against the document and throws a \<open>RangeError\<close> when it reaches
  beyond the end of the text; positions count UTF-16 code units.
\<close>

definition dispatchSelection :: "Selection \<Rightarrow> EditorView \<Rightarrow> JsError + EditorView" where
  "dispatchSelection sel v =
     (if length (codeUnits (doc (state v))) < max (anchor sel) (head sel)
      then Inl (Error ''RangeError: Selection points outside of document'')
      else Inr (v\<lparr>state := (state v)\<lparr>stateSelection := sel\<rparr>\<rparr>))"

text \<open>
  \<open>restoreState\<close>: the scroll position is set, then the selection is dispatched, then the
  view gets the focus. An exception of the dispatch leaves the function.
\<close>

definition restoreState :: "string \<Rightarrow> Editor \<Rightarrow> bool Outcome \<times> Editor" where
  "restoreState page e =
     (case editorView e of
        None \<Rightarrow> (Throws (Error ''TypeError: editorView is undefined''), e)
      | Some v \<Rightarrow>
          (case map_of (openPages e) page of
             Some ps \<Rightarrow>
               (let v1 = v\<lparr>viewScrollTop := scrollTop ps\<rparr>
                in (case dispatchSelection (selection ps) v1 of
                      Inl err \<Rightarrow> (Throws err, e\<lparr>editorView := Some v1\<rparr>)
                    | Inr v2 \<Rightarrow> (Returns True, e\<lparr>editorView := Some (v2\<lparr>focused := True\<rparr>)\<rparr>)))
           | None \<Rightarrow>
               (let v1 = v\<lparr>viewScrollTop := 0\<rparr>
                in (case dispatchSelection \<lparr>anchor = 0, head = 0\<rparr> v1 of
                      Inl err \<Rightarrow> (Throws err, e\<lparr>editorView := Some v1\<rparr>)
                    | Inr v2 \<Rightarrow> (Returns False, e\<lparr>editorView := Some (v2\<lparr>focused := True\<rparr>)\<rparr>)))))"

definition freshDoc :: "string \<Rightarrow> Doc" where
  "freshDoc page = \<lparr>docText = [], docMeta = \<lparr>metaName = page, lastModified = 0, perm = RW\<rparr>\<rparr>"

text \<open>
  The first part of \<open>loadPage\<close>: the state of the previous page is kept, the page is no
  longer watched, and when another page is opened the previous one is saved at once and
  the collab session ends. \<open>loadPage\<close> goes on when the promise of that save is
  resolved; a rejected save leaves \<open>loadPage\<close>, and while the promise is pending
  \<open>loadPage\<close> does not go on.
\<close>

definition closePrevious :: "string \<Rightarrow> Turn list \<Rightarrow> Editor \<Rightarrow> unit Outcome \<times> Editor" where
  "closePrevious page during e =
     (case currentPage (viewState e) of
        None \<Rightarrow> (Returns (), e)
      | Some previousPage \<Rightarrow>
          (if previousPage = [] then (Returns (), e)
           else (let e1 = saveState previousPage e;
                     e2 = e1\<lparr>space := unwatchPage previousPage (space e1)\<rparr>
                 in if previousPage \<noteq> page
                    then (case awaitSave True during e2 of
                            (Returns u, e3) \<Rightarrow> (Returns (), e3\<lparr>collabState := None\<rparr>)
                          | (Throws err, e3) \<Rightarrow> (Throws err, e3)
                          | (NeverSettles, e3) \<Rightarrow> (NeverSettles, e3))
                    else (Returns (), e2))))"

text \<open>
  The rest of \<open>loadPage\<close>, from the document that was read or made up. An exception
  of \<open>restoreState\<close> leaves \<open>loadPage\<close> before the page is watched and before
  \<open>page-loaded\<close> is dispatched.
\<close>

definition openDoc :: "bool \<Rightarrow> string \<Rightarrow> Doc \<Rightarrow> Editor \<Rightarrow> bool Outcome \<times> Editor" where
  "openDoc loadingDifferentPage page d e =
     (let e1 = setState (createEditorState page (docText d) e) e;
          e2 = tweakEditorDOM (perm (docMeta d) = RO) e1
      in (case restoreState page e2 of
            (Returns stateRestored, e3) \<Rightarrow>
              (let e4 = e3\<lparr>space := watchPage page (space e3)\<rparr>;
                   e5 = viewDispatch (PageLoaded (docMeta d)) e4
               in (case dispatchAppEvent
                          (if loadingDifferentPage then ''editor:pageLoaded''
                           else ''editor:pageReloaded'') (JStr page) e5 of
                     (rs, e6) \<Rightarrow> (Returns stateRestored, e6)))
          | (Throws err, e3) \<Rightarrow> (Throws err, e3)
          | (NeverSettles, e3) \<Rightarrow> (NeverSettles, e3)))"

text \<open>
  \<open>loadPage(pageName)\<close>, with the turns of the event loop that follow the forced save
  of the previous page. A failed read is replaced by the fresh document.
\<close>

definition loadPage :: "string \<Rightarrow> Turn list \<Rightarrow> Editor \<Rightarrow> bool Outcome \<times> Editor" where
  "loadPage page during e =
     (let loadingDifferentPage = (currentPage (viewState e) \<noteq> Some page)
      in (case editorView e of
            None \<Rightarrow> (Returns False, e)
          | Some v \<Rightarrow>
              (case closePrevious page during e of
                 (Throws err, e1) \<Rightarrow> (Throws err, e1)
               | (NeverSettles, e1) \<Rightarrow> (NeverSettles, e1)
               | (Returns u, e1) \<Rightarrow>
                   (let e2 = viewDispatch (PageLoading page) e1
                    in (case readPage (space e2) page of
                          Inr d \<Rightarrow> openDoc loadingDifferentPage page d e2
                        | Inl err \<Rightarrow>
                            openDoc loadingDifferentPage page (freshDoc page)
                              (consoleLog (''Creating new page '' @ page) e2))))))"

subsection \<open>Reloading the plugs\<close>

text \<open>
  \<open>rebuildEditorState\<close>: the state of the current page is kept, a new editor state is
  set for the same text, and the kept state is restored.
\<close>

definition rebuildEditorState :: "Editor \<Rightarrow> unit Outcome \<times> Editor" where
  "rebuildEditorState e =
     (let e0 = consoleLog ''Rebuilding editor state'' e
      in (case editorView e0 of
            None \<Rightarrow> (Returns (), e0)
          | Some v \<Rightarrow>
              (case currentPage (viewState e0) of
                 None \<Rightarrow> (Returns (), e0)
               | Some page \<Rightarrow>
                   (if page = [] then (Returns (), e0)
                    else (let e1 = consoleLog ''Getting all syntax extensions'' e0;
                              e2 = e1\<lparr>mdExtensions := loadMarkdownExtensions e1 (system e1)\<rparr>;
                              e3 = e2\<lparr>system := registerSyscalls []
                                     (markdownSyscalls e2 (mdExtensions e2)) (system e2)\<rparr>;
                              e4 = saveState page e3;
                              e5 = setState (createEditorState page (doc (state v)) e4) e4;
                              e6 = tweakEditorDOM (viewPerm (viewState e5) = RO) e5
                          in (case restoreState page e6 of
                                (Returns b, e7) \<Rightarrow> (Returns (), e7)
                              | (Throws err, e7) \<Rightarrow> (Throws err, e7)
                              | (NeverSettles, e7) \<Rightarrow> (NeverSettles, e7)))))))"

text \<open>
  The order in which the reads of the plug files complete is the host's choice. It is
  given by picks: each number picks, among the files still to come, the one that
  completes next; when the picks are used up the rest completes in the order of the list.
\<close>

fun arrange :: "nat list \<Rightarrow> 'a list \<Rightarrow> 'a list" where
  "arrange ks [] = []"
| "arrange [] (x # xs) = x # xs"
| "arrange (k # ks) (x # xs) =
     (let i = k mod Suc (length xs)
      in (x # xs) ! i # arrange ks (take i (x # xs) @ drop (Suc i) (x # xs)))"

text \<open>
  The loads that \<open>Promise.all\<close> waits for, in the order in which the reads complete. A
  file that cannot be read or parsed, or a plug that fails to load, rejects its own
  promise only: the other plugs are loaded all the same. The error returned is the first
  one, with which \<open>Promise.all\<close> rejects; the editor returned is the one reached when
  every load has settled. The command hook, which recomputes its commands on every load
  and unload, is taken to call its listener after \<open>unloadAll\<close> and after each load.
\<close>

definition firstError :: "JsError \<Rightarrow> JsError option \<times> Editor \<Rightarrow> JsError option \<times> Editor" where
  "firstError err r = (Some err, snd r)"

fun loadPlugs :: "(string \<times> Manifest option) list \<Rightarrow> Editor \<Rightarrow> JsError option \<times> Editor" where
  "loadPlugs [] e = (None, e)"
| "loadPlugs ((plugName, pf) # rest) e =
     (case pf of
        None \<Rightarrow> firstError (Error (''Could not read '' @ plugName)) (loadPlugs rest e)
      | Some m \<Rightarrow>
          (case load m (createSandbox e) (system e) of
             Inl f \<Rightarrow> firstError (Error (''Could not load '' @ plugName)) (loadPlugs rest e)
           | Inr sys \<Rightarrow> loadPlugs rest (commandsUpdated (e\<lparr>system := sys\<rparr>))))"

text \<open>
  \<open>reloadPlugs\<close>, with the picks that give the order of completion. The editor state
  is rebuilt and \<open>plugs:loaded\<close> is dispatched only when every plug was loaded.
\<close>

definition reloadPlugs :: "nat list \<Rightarrow> Editor \<Rightarrow> unit Outcome \<times> Editor" where
  "reloadPlugs order e =
     (case updatePageList (consoleLog ''Loading plugs'' e) of
        (Throws err, e1) \<Rightarrow> (Throws err, e1)
      | (NeverSettles, e1) \<Rightarrow> (NeverSettles, e1)
      | (Returns u, e1) \<Rightarrow>
          (let e2 = commandsUpdated (e1\<lparr>system := unloadAll (system e1)\<rparr>);
               e3 = consoleLog ''(Re)loading plugs'' e2
           in (case loadPlugs (arrange order (plugFiles (space e3))) e3 of
                 (Some err, e4) \<Rightarrow> (Throws err, e4)
               | (None, e4) \<Rightarrow>
                   (case rebuildEditorState e4 of
                      (Throws err, e5) \<Rightarrow> (Throws err, e5)
                    | (NeverSettles, e5) \<Rightarrow> (NeverSettles, e5)
                    | (Returns u, e5) \<Rightarrow>
                        (case dispatchAppEvent ''plugs:loaded'' JUndefined e5 of
                           (rs, e6) \<Rightarrow> (Returns (), e6))))))"

section \<open>Notions used by the properties\<close>

text \<open>What each subscriber of an event returns when invoked with a payload, in registration order.\<close>

definition outcomeOf :: "System \<Rightarrow> JsValue \<Rightarrow> PluginRef \<times> string \<Rightarrow> InvokeFailure + JsValue" where
  "outcomeOf sys payload s = fst (invoke (fst s) (snd s) [payload] sys)"

definition outcomes :: "System \<Rightarrow> string \<Rightarrow> JsValue \<Rightarrow> (InvokeFailure + JsValue) list" where
  "outcomes sys ev payload = map (outcomeOf sys payload) (subscribers sys ev)"

text \<open>Every subscriber of the event belongs to a loaded plugin.\<close>

definition live :: "System \<Rightarrow> string \<Rightarrow> bool" where
  "live sys ev = list_all (\<lambda>s. findPlugin sys (fst s) \<noteq> None) (subscribers sys ev)"

text \<open>The delay of the timer that \<open>save\<close> arms.\<close>

definition delay :: "bool \<Rightarrow> nat" where
  "delay immediate = (if immediate then 0 else saveInterval)"

text \<open>The pending timers that lead to a write: those armed by \<open>save\<close> and the retry.\<close>

definition armed :: "Editor \<Rightarrow> Timer list" where
  "armed e = filter (\<lambda>t. callback t = SaveCallback \<or> callback t = RetrySave) (timers e)"

text \<open>
  A tidy timer queue: handles are positive, at most the last one handed out, and
  distinct; and every pending save or retry timer is the one whose handle is in
  \<open>saveTimeout\<close>. The editor starts with such a queue.
\<close>

definition tidy :: "Editor \<Rightarrow> bool" where
  "tidy e =
     ((\<forall>t \<in> set (timers e). 0 < timerId t \<and> timerId t \<le> timerSeq e)
      \<and> distinct (map timerId (timers e))
      \<and> (\<forall>t \<in> set (armed e). saveTimeout e = Some (timerId t)))"

text \<open>The references (name and generation) of the loaded plugins.\<close>

definition loadedRefs :: "System \<Rightarrow> PluginRef list" where
  "loadedRefs sys = map pluginRef (plugins sys)"

text \<open>The owners of the plugin-owned syscall bindings.\<close>

definition bindingOwners :: "(string \<times> SyscallBinding) list \<Rightarrow> PluginRef list" where
  "bindingOwners tab =
     concat (map (\<lambda>e. case bindingOwner (snd e) of None \<Rightarrow> [] | Some r \<Rightarrow> [r]) tab)"

text \<open>The owner of every entry of the hook tables and of the syscall registry.\<close>

definition ownerList :: "System \<Rightarrow> PluginRef list" where
  "ownerList sys =
     map (\<lambda>s. fst (snd s)) (subscriptions sys) @ map commandOwner (commandTable sys)
       @ map slashOwner (slashCommands sys) @ map nsOwner (namespaceHandlers sys)
       @ bindingOwners (syscalls sys)"

text \<open>
  Every table entry belongs to a loaded plugin, and no loaded plugin has a generation
  beyond the last one given to its name.
\<close>

definition wellFormed :: "System \<Rightarrow> bool" where
  "wellFormed sys =
     (set (ownerList sys) \<subseteq> set (loadedRefs sys)
      \<and> (\<forall>r \<in> set (loadedRefs sys). snd r \<le> lookupGen (generations sys) (fst r)))"

text \<open>A registration step: it adds entries of one plugin and nothing else.\<close>

definition grows :: "PluginRef \<Rightarrow> System \<Rightarrow> System \<Rightarrow> bool" where
  "grows r s s' =
     (plugins s' = plugins s \<and> generations s' = generations s
      \<and> set (ownerList s') \<subseteq> insert r (set (ownerList s)))"

text \<open>A well-formed system whose plugins are all of a generation later than a given table.\<close>

definition fresh :: "(string \<times> nat) list \<Rightarrow> System \<Rightarrow> bool" where
  "fresh G sys =
     (wellFormed sys
      \<and> (\<forall>r \<in> set (loadedRefs sys). lookupGen G (fst r) < snd r)
      \<and> (\<forall>n. lookupGen G n \<le> lookupGen (generations sys) n))"

text \<open>Two systems with the same plugins and hook tables, the second owning no further binding.\<close>

definition sameTables :: "System \<Rightarrow> System \<Rightarrow> bool" where
  "sameTables s s' =
     (plugins s' = plugins s \<and> generations s' = generations s
      \<and> subscriptions s' = subscriptions s \<and> commandTable s' = commandTable s
      \<and> slashCommands s' = slashCommands s \<and> namespaceHandlers s' = namespaceHandlers s
      \<and> set (bindingOwners (syscalls s')) \<subseteq> set (bindingOwners (syscalls s)))"

text \<open>The editor as the plugs are about to be loaded, when the page list could be updated.\<close>

definition unloaded :: "Editor \<Rightarrow> Editor" where
  "unloaded e =
     (let e1 = viewDispatch (PagesListed (map (\<lambda>p. docMeta (snd p)) (pages (space e))))
                 (consoleLog ''Loading plugs'' e)
      in consoleLog ''(Re)loading plugs''
           (commandsUpdated (e1\<lparr>system := unloadAll (system e1)\<rparr>)))"

section \<open>Example states\<close>

text \<open>
  A system with the core plug loaded in generation 1, as far as the examples need its
  tables, and an editor on the page \<open>index\<close>.
\<close>

definition demoSandbox :: Sandbox where
  "demoSandbox fn args =
     (if fn = ''pageComplete'' then Inr (JObj [(''from'', JNum 0), (''options'', JArr [])])
      else if fn = ''tagComplete'' then Inl (ThrownError ''tag index unavailable'')
      else if fn = ''readPageSearch'' then Inr (JObj [(''text'', JStr ''results'')])
      else if fn = ''deletePage'' then Inr (JBool True)
      else Inr JNull)"

definition demoFactory :: SandboxFactory where
  "demoFactory m = Some demoSandbox"

definition searchPattern :: Rx where
  "searchPattern = the (compileRx (searchGlyph @ '' .+''))"

definition cloudPattern :: Rx where
  "cloudPattern = the (compileRx (cloudGlyph @ '' .+''))"

definition demoSystem :: System where
  "demoSystem = (newSystem Client)
     \<lparr>generations := [(''core'', 1)],
      plugins := [\<lparr>manifest = coreManifest, sandbox = demoSandbox, generation = 1\<rparr>],
      subscriptions :=
        [(''page:saved'', (''core'', 1), ''clearPageIndex''),
         (''page:complete'', (''core'', 1), ''pageComplete''),
         (''page:complete'', (''core'', 1), ''commandComplete''),
         (''page:complete'', (''core'', 1), ''tagComplete''),
         (''page:complete'', (''core'', 1), ''anchorComplete'')],
      commandTable :=
        [\<lparr>commandDef = plainCommand ''Page: Delete'', commandOwner = (''core'', 1),
          commandFunction = ''deletePage''\<rparr>,
         \<lparr>commandDef = (plainCommand ''Navigate To page'')
            \<lparr>key := Some ''Ctrl-Enter'', mac := Some ''Cmd-Enter''\<rparr>,
          commandOwner = (''core'', 1), commandFunction = ''linkNavigate''\<rparr>,
         \<lparr>commandDef = (plainCommand ''Link: Unfurl'')
            \<lparr>key := Some ''Ctrl-Shift-u'', mac := Some ''Cmd-Shift-u'',
             contexts := Some [''NakedURL'']\<rparr>,
          commandOwner = (''core'', 1), commandFunction = ''unfurlLink''\<rparr>],
      namespaceHandlers :=
        [\<lparr>nsPattern = cloudPattern, nsOperation = ''readFile'', nsOwner = (''core'', 1),
          nsFunction = ''readPageCloud''\<rparr>,
         \<lparr>nsPattern = searchPattern, nsOperation = ''getFileMeta'', nsOwner = (''core'', 1),
          nsFunction = ''getPageMetaSearch''\<rparr>,
         \<lparr>nsPattern = searchPattern, nsOperation = ''readFile'', nsOwner = (''core'', 1),
          nsFunction = ''readPageSearch''\<rparr>],
      syscalls :=
        [(''core.unfurlExec'',
          \<lparr>impl = sandboxImpl demoSandbox ''unfurlExec'', requiredEnv = Some Server,
           capability = None, bindingOwner = Some (''core'', 1)\<rparr>)]\<rparr>"

definition chattySandbox :: Sandbox where
  "chattySandbox fn args = Inr (JObj [])"

definition chattySystem :: System where
  "chattySystem =
     demoSystem\<lparr>plugins := [\<lparr>manifest = coreManifest, sandbox = chattySandbox, generation = 1\<rparr>]\<rparr>"

text \<open>The reducer is not part of the sources; the examples use this one.\<close>

definition exampleReducer :: "AppViewState \<Rightarrow> Action \<Rightarrow> AppViewState" where
  "exampleReducer vs a =
     (case a of
        UpdateCommands c \<Rightarrow> vs\<lparr>commands := c\<rparr>
      | PageLoading n \<Rightarrow> vs\<lparr>currentPage := Some n\<rparr>
      | PageLoaded m \<Rightarrow> vs\<lparr>currentPage := Some (metaName m), viewPerm := perm m\<rparr>
      | PageChanged \<Rightarrow> vs\<lparr>unsavedChanges := True\<rparr>
      | PageSaved \<Rightarrow> vs\<lparr>unsavedChanges := False\<rparr>
      | _ \<Rightarrow> vs)"

definition demoView :: EditorView where
  "demoView =
     \<lparr>state = \<lparr>doc = ''Hello'', stateSelection = \<lparr>anchor = 0, head = 0\<rparr>, keyBindings = []\<rparr>,
      viewScrollTop = 0, contentEditable = True, focused = False\<rparr>"

definition demoSpace :: Space where
  "demoSpace =
     \<lparr>pages = [(''index'', \<lparr>docText = ''Hello'',
                 docMeta = \<lparr>metaName = ''index'', lastModified = 1, perm = RW\<rparr>\<rparr>)],
      plugFiles = [],
      online = True, writes = [], watched = [''index'']\<rparr>"

definition demoEditor :: Editor where
  "demoEditor =
     \<lparr>openPages = [], editorView = Some demoView,
      viewState = \<lparr>currentPage = Some ''index'', viewPerm = RW, forcedROMode = False,
                   unsavedChanges = False, commands = editorCommands demoSystem\<rparr>,
      space = demoSpace, saveTimeout = None, system = demoSystem, mdExtensions = [],
      collabState = None, reducer = exampleReducer, clock = 0, timerSeq = 0, timers = [],
      promises = [], inflight = [], console = [], randoms = [],
      syntaxNode = (\<lambda>d p. ''Paragraph''), createSandbox = demoFactory,
      loadMarkdownExtensions = (\<lambda>sys. []), markdownSyscalls = (\<lambda>exts. [])\<rparr>"


definition dirtyEditor :: Editor where
  "dirtyEditor = demoEditor\<lparr>viewState := (viewState demoEditor)\<lparr>unsavedChanges := True\<rparr>\<rparr>"

definition readOnlyEditor :: Editor where
  "readOnlyEditor = dirtyEditor\<lparr>viewState := (viewState dirtyEditor)\<lparr>forcedROMode := True\<rparr>\<rparr>"

definition deleteCommand :: AppCommand where
  "deleteCommand =
     \<lparr>appCommand = plainCommand ''Page: Delete'', run = invoke (''core'', 1) ''deletePage'' []\<rparr>"

definition navigateCommand :: AppCommand where
  "navigateCommand =
     \<lparr>appCommand = (plainCommand ''Navigate To page'')
        \<lparr>key := Some ''Ctrl-Enter'', mac := Some ''Cmd-Enter''\<rparr>,
      run = invoke (''core'', 1) ''linkNavigate'' []\<rparr>"

definition unfurlCommand :: AppCommand where
  "unfurlCommand =
     \<lparr>appCommand = (plainCommand ''Link: Unfurl'')
        \<lparr>key := Some ''Ctrl-Shift-u'', mac := Some ''Cmd-Shift-u'', contexts := Some [''NakedURL'']\<rparr>,
      run = invoke (''core'', 1) ''unfurlLink'' []\<rparr>"

definition urlEditor :: Editor where
  "urlEditor = demoEditor\<lparr>syntaxNode := (\<lambda>d p. ''NakedURL'')\<rparr>"

definition offlineEditor :: Editor where
  "offlineEditor = demoEditor\<lparr>space := demoSpace\<lparr>online := False\<rparr>\<rparr>"

text \<open>
  An editor with unsaved changes whose space cannot be reached, and the same editor
  after a write has failed while a later call of \<open>save\<close> was pending: \<open>save\<close> is
  called and its timer fires and starts the write; the document changes again and
  \<open>save\<close> is called; then the write fails.
\<close>

definition unreachableEditor :: Editor where
  "unreachableEditor = dirtyEditor\<lparr>space := demoSpace\<lparr>online := False\<rparr>\<rparr>"

definition racedEditor :: Editor where
  "racedEditor =
     turns [CallSave False, Fire 1, Wait 100, CallSave False, Wait 50, WriteSettled 1]
       unreachableEditor"

text \<open>
  The editor on the page \<open>index\<close> with the cursor behind the third character, while the
  space cannot be reached.
\<close>

definition cursorEditor :: Editor where
  "cursorEditor =
     offlineEditor\<lparr>editorView :=
       Some (demoView\<lparr>state := (state demoView)\<lparr>stateSelection := \<lparr>anchor = 3, head = 3\<rparr>\<rparr>\<rparr>)\<rparr>"

text \<open>
  The editor on \<open>index\<close> that has kept the state of an earlier visit of the page
  \<open>notes\<close>, cursor behind the third character, while the space cannot be reached.
\<close>

definition visitedEditor :: Editor where
  "visitedEditor =
     offlineEditor\<lparr>openPages :=
       [(''notes'', \<lparr>scrollTop = 120, selection = \<lparr>anchor = 3, head = 3\<rparr>\<rparr>)]\<rparr>"

definition reloadEditor :: Editor where
  "reloadEditor =
     demoEditor\<lparr>space := demoSpace\<lparr>plugFiles := [(''_plug/core.plug.json'', Some coreManifest)]\<rparr>\<rparr>"

section \<open>Properties of the event hook\<close>

lemma invoke_plugins: "plugins (snd (invoke r fn args sys)) = plugins sys"
  by (simp add: invoke_def split: option.splits)

lemma invoke_hookLog: "hookLog (snd (invoke r fn args sys)) = hookLog sys"
  by (simp add: invoke_def split: option.splits)

lemma invoke_cong: "plugins s1 = plugins s2 \<Longrightarrow> fst (invoke r fn args s1) = fst (invoke r fn args s2)"
  by (simp add: invoke_def findPlugin_def split: option.splits)

lemma invoke_invocations:
  "invocations (snd (invoke r fn args sys)) =
     invocations sys @ (if findPlugin sys r = None then [] else [(r, fn, args)])"
  by (simp add: invoke_def split: option.splits)

lemma dispatchLoop_step:
  "dispatchLoop ev payload (s # rest) acc sys =
     (case outcomeOf sys payload s of
        Inr v \<Rightarrow> dispatchLoop ev payload rest (acc @ [v]) (snd (invoke (fst s) (snd s) [payload] sys))
      | Inl f \<Rightarrow> dispatchLoop ev payload rest acc
          ((snd (invoke (fst s) (snd s) [payload] sys))
             \<lparr>hookLog := hookLog (snd (invoke (fst s) (snd s) [payload] sys)) @ [(ev, fst s, snd s, f)]\<rparr>))"
  by (cases s) (auto simp: outcomeOf_def split: prod.splits sum.splits)

lemma outcomeOf_cong: "plugins s1 = plugins s2 \<Longrightarrow> outcomeOf s1 p s = outcomeOf s2 p s"
  unfolding outcomeOf_def by (rule invoke_cong)

lemma dispatchLoop_plugins:
  "plugins (snd (dispatchLoop ev payload subs acc sys)) = plugins sys"
proof (induction subs arbitrary: acc sys)
  case Nil then show ?case by simp
next
  case (Cons s subs)
  show ?case
    by (simp only: dispatchLoop_step) (simp split: sum.splits add: Cons.IH invoke_plugins)
qed

lemma dispatchLoop_results:
  "fst (dispatchLoop ev payload subs acc sys) =
     acc @ map projr (filter (\<lambda>x. \<not> isl x) (map (outcomeOf sys payload) subs))"
proof (induction subs arbitrary: acc sys)
  case Nil then show ?case by simp
next
  case (Cons s subs)
  have c: "\<And>u. map (outcomeOf (snd (invoke (fst s) (snd s) [payload] sys)\<lparr>hookLog := u\<rparr>) payload) subs
        = map (outcomeOf sys payload) subs"
     "map (outcomeOf (snd (invoke (fst s) (snd s) [payload] sys)) payload) subs
        = map (outcomeOf sys payload) subs"
    by (auto intro!: outcomeOf_cong simp: invoke_plugins)
  show ?case
    by (simp only: dispatchLoop_step) (auto split: sum.splits simp: Cons.IH c)
qed

lemma dispatchLoop_hookLog:
  "hookLog (snd (dispatchLoop ev payload subs acc sys)) =
     hookLog sys @ map (\<lambda>s. (ev, fst s, snd s, projl (outcomeOf sys payload s)))
                       (filter (\<lambda>s. isl (outcomeOf sys payload s)) subs)"
proof (induction subs arbitrary: acc sys)
  case Nil then show ?case by simp
next
  case (Cons s subs)
  have c: "\<And>u x. outcomeOf (snd (invoke (fst s) (snd s) [payload] sys)\<lparr>hookLog := u\<rparr>) payload x
        = outcomeOf sys payload x"
     "\<And>x. outcomeOf (snd (invoke (fst s) (snd s) [payload] sys)) payload x
        = outcomeOf sys payload x"
    by (auto intro!: outcomeOf_cong simp: invoke_plugins)
  show ?case
    by (simp only: dispatchLoop_step) (auto split: sum.splits simp: Cons.IH c invoke_hookLog)
qed

lemma dispatchLoop_invocations:
  "invocations (snd (dispatchLoop ev payload subs acc sys)) =
     invocations sys @ map (\<lambda>s. (fst s, snd s, [payload]))
                       (filter (\<lambda>s. findPlugin sys (fst s) \<noteq> None) subs)"
proof (induction subs arbitrary: acc sys)
  case Nil then show ?case by simp
next
  case (Cons s subs)
  have c: "\<And>u x. findPlugin (snd (invoke (fst s) (snd s) [payload] sys)\<lparr>hookLog := u\<rparr>) x
        = findPlugin sys x"
     "\<And>x. findPlugin (snd (invoke (fst s) (snd s) [payload] sys)) x
        = findPlugin sys x"
    by (auto simp: findPlugin_def invoke_plugins)
  show ?case
    by (simp only: dispatchLoop_step) (auto split: sum.splits simp: Cons.IH c invoke_invocations)
qed


lemma core_name: "manifestName coreManifest = ''core''"
  by (simp add: coreManifest_def)

lemma demo_find: "findPlugin demoSystem (''core'', Suc 0) = Some \<lparr>manifest = coreManifest, sandbox = demoSandbox, generation = 1\<rparr>"
  by (simp add: findPlugin_def demoSystem_def newSystem_def pluginRef_def core_name)

lemma demo_subscribers: "subscribers demoSystem ''page:complete'' =
   [((''core'', 1), ''pageComplete''), ((''core'', 1), ''commandComplete''),
    ((''core'', 1), ''tagComplete''), ((''core'', 1), ''anchorComplete'')]"
  by (simp add: subscribers_def demoSystem_def newSystem_def)

lemma demo_outcomes: "outcomes demoSystem ''page:complete'' JUndefined =
   [Inr (JObj [(''from'', JNum 0), (''options'', JArr [])]), Inr JNull,
    Inl (ThrownError ''tag index unavailable''), Inr JNull]"
  by (simp add: outcomes_def outcomeOf_def demo_subscribers invoke_def demo_find demoSandbox_def)

text \<open>
  C1. When every subscriber of an event is live and exactly one of the k invocations
  fails, \<open>dispatchEvent\<close> returns the k - 1 successful results in registration order,
  has invoked every subscriber, in order, and has logged exactly the one failure.
\<close>

theorem dispatchEvent_fault_isolation:
  assumes "live sys ev" and "length (filter isl (outcomes sys ev payload)) = 1"
  shows "fst (dispatchEvent ev payload sys)
           = map projr (filter (\<lambda>x. \<not> isl x) (outcomes sys ev payload))
       \<and> length (fst (dispatchEvent ev payload sys)) = length (subscribers sys ev) - 1
       \<and> invocations (snd (dispatchEvent ev payload sys))
           = invocations sys @ map (\<lambda>s. (fst s, snd s, [payload])) (subscribers sys ev)
       \<and> hookLog (snd (dispatchEvent ev payload sys))
           = hookLog sys @ map (\<lambda>s. (ev, fst s, snd s, projl (fst (invoke (fst s) (snd s) [payload] sys))))
               (filter (\<lambda>s. isl (fst (invoke (fst s) (snd s) [payload] sys))) (subscribers sys ev))
       \<and> length (hookLog (snd (dispatchEvent ev payload sys))) = length (hookLog sys) + 1"
proof -
  let ?subs = "subscribers sys ev"
  let ?outs = "outcomes sys ev payload"
  have outs: "?outs = map (outcomeOf sys payload) ?subs"
    by (simp add: outcomes_def)
  have res: "fst (dispatchEvent ev payload sys) = map projr (filter (\<lambda>x. \<not> isl x) ?outs)"
    by (simp add: dispatchEvent_def dispatchLoop_results outs)
  have split: "length (filter (\<lambda>x. \<not> isl x) ?outs) + length (filter isl ?outs) = length ?outs"
    using sum_length_filter_compl [of isl ?outs] by simp
  have len: "length (fst (dispatchEvent ev payload sys)) = length ?subs - 1"
    using split assms(2) by (simp add: res) (simp add: outs)
  have allLive: "filter (\<lambda>s. findPlugin sys (fst s) \<noteq> None) ?subs = ?subs"
    using assms(1) unfolding live_def list_all_iff by (intro filter_True) blast
  have inv: "invocations (snd (dispatchEvent ev payload sys))
           = invocations sys @ map (\<lambda>s. (fst s, snd s, [payload])) ?subs"
    by (simp only: dispatchEvent_def dispatchLoop_invocations allLive)
  have log: "hookLog (snd (dispatchEvent ev payload sys))
           = hookLog sys @ map (\<lambda>s. (ev, fst s, snd s, projl (fst (invoke (fst s) (snd s) [payload] sys))))
               (filter (\<lambda>s. isl (fst (invoke (fst s) (snd s) [payload] sys))) ?subs)"
    by (simp add: dispatchEvent_def dispatchLoop_hookLog outcomeOf_def)
  have "length (filter (\<lambda>s. isl (fst (invoke (fst s) (snd s) [payload] sys))) ?subs)
          = length (filter isl ?outs)"
    by (simp add: outcomes_def outcomeOf_def filter_map comp_def)
  with assms(2) log have loglen:
    "length (hookLog (snd (dispatchEvent ev payload sys))) = length (hookLog sys) + 1"
    by simp
  from res len inv log loglen show ?thesis by blast
qed

theorem dispatchEvent_fault_isolation_witness:
  "live demoSystem ''page:complete''
   \<and> length (filter isl (outcomes demoSystem ''page:complete'' JUndefined)) = 1
   \<and> fst (dispatchEvent ''page:complete'' JUndefined demoSystem)
        = [JObj [(''from'', JNum 0), (''options'', JArr [])], JNull, JNull]
   \<and> length (hookLog (snd (dispatchEvent ''page:complete'' JUndefined demoSystem))) = 1"
proof -
  have l: "live demoSystem ''page:complete''"
    by (simp add: live_def demo_subscribers demo_find)
  have o: "length (filter isl (outcomes demoSystem ''page:complete'' JUndefined)) = 1"
    by (simp add: demo_outcomes)
  have h: "hookLog demoSystem = []"
    by (simp add: demoSystem_def newSystem_def)
  note r = dispatchEvent_fault_isolation [OF l o]
  have a: "fst (dispatchEvent ''page:complete'' JUndefined demoSystem)
        = [JObj [(''from'', JNum 0), (''options'', JArr [])], JNull, JNull]"
    using r by (simp add: demo_outcomes)
  have "length (hookLog (snd (dispatchEvent ''page:complete'' JUndefined demoSystem)))
          = length (hookLog demoSystem) + 1"
    using r by blast
  then have b: "length (hookLog (snd (dispatchEvent ''page:complete'' JUndefined demoSystem))) = 1"
    by (simp add: h)
  from l o a b show ?thesis by blast
qed


section \<open>Properties of the completer\<close>

lemma completerLoop_none: "filter truthy rs = [] \<Longrightarrow> completerLoop a rs = (a, [])"
  by (induction rs arbitrary: a) (auto split: if_splits)

lemma completerLoop_truthy:
  "truthy a \<Longrightarrow> filter truthy rs \<noteq> [] \<Longrightarrow>
   completerLoop a rs = (JNull, [''Got completion results from multiple sources, cannot deal with that''])"
  by (induction rs arbitrary: a) (auto split: if_splits)

lemma completerLoop_one:
  "\<not> truthy a \<Longrightarrow> filter truthy rs = [x] \<Longrightarrow> completerLoop a rs = (x, [])"
  by (induction rs arbitrary: a) (auto split: if_splits simp: completerLoop_none)

lemma completerLoop_many:
  "\<not> truthy a \<Longrightarrow> 2 \<le> length (filter truthy rs) \<Longrightarrow>
   completerLoop a rs = (JNull, [''Got completion results from multiple sources, cannot deal with that''])"
proof (induction rs arbitrary: a)
  case Nil then show ?case by simp
next
  case (Cons r rs)
  show ?case
  proof (cases "truthy r")
    case True
    with Cons.prems have "filter truthy rs \<noteq> []" by auto
    with True Cons.prems show ?thesis by (simp add: completerLoop_truthy)
  next
    case False
    with Cons show ?thesis by simp
  qed
qed

lemma dispatchAppEvent_results:
  "fst (dispatchAppEvent ev payload e) = fst (dispatchEvent ev payload (system e))"
  by (simp add: dispatchAppEvent_def split: prod.splits)

lemma dispatchAppEvent_console:
  "console (snd (dispatchAppEvent ev payload e)) = console e"
  by (simp add: dispatchAppEvent_def split: prod.splits)

lemma completer_unfold:
  "completer e =
     (fst (completerLoop JNull (fst (dispatchAppEvent ''page:complete'' JUndefined e))),
      (snd (dispatchAppEvent ''page:complete'' JUndefined e))
        \<lparr>console := console (snd (dispatchAppEvent ''page:complete'' JUndefined e))
           @ snd (completerLoop JNull (fst (dispatchAppEvent ''page:complete'' JUndefined e)))\<rparr>)"
  by (simp add: completer_def split: prod.splits)

text \<open>
  C4. The completer returns the one truthy result of \<open>page:complete\<close> when exactly one
  subscriber result is truthy. With two or more truthy results it reports the ambiguity
  on the console and returns \<open>null\<close>; with none it returns \<open>null\<close> as well.
\<close>

theorem completer_single_answer:
  "(filter truthy (fst (dispatchAppEvent ''page:complete'' JUndefined e)) = [] \<longrightarrow>
      fst (completer e) = JNull \<and> console (snd (completer e)) = console e)
   \<and> (filter truthy (fst (dispatchAppEvent ''page:complete'' JUndefined e)) = [x] \<longrightarrow>
      fst (completer e) = x \<and> console (snd (completer e)) = console e)
   \<and> (2 \<le> length (filter truthy (fst (dispatchAppEvent ''page:complete'' JUndefined e))) \<longrightarrow>
      fst (completer e) = JNull
      \<and> console (snd (completer e)) = console e
          @ [''Got completion results from multiple sources, cannot deal with that''])"
  by (simp add: completer_unfold dispatchAppEvent_console completerLoop_none completerLoop_one
        completerLoop_many)

lemma chatty_find: "findPlugin chattySystem (''core'', Suc 0) = Some \<lparr>manifest = coreManifest, sandbox = chattySandbox, generation = 1\<rparr>"
  by (simp add: findPlugin_def chattySystem_def demoSystem_def newSystem_def pluginRef_def core_name)

lemma chatty_subscribers: "subscribers chattySystem ''page:complete'' =
   [((''core'', 1), ''pageComplete''), ((''core'', 1), ''commandComplete''),
    ((''core'', 1), ''tagComplete''), ((''core'', 1), ''anchorComplete'')]"
  by (simp add: subscribers_def chattySystem_def demoSystem_def newSystem_def)

lemma dispatchEvent_results:
  "fst (dispatchEvent ev payload sys)
     = map projr (filter (\<lambda>x. \<not> isl x) (outcomes sys ev payload))"
  by (simp add: dispatchEvent_def dispatchLoop_results outcomes_def)

lemma chatty_outcomes: "outcomes chattySystem ''page:complete'' JUndefined =
   [Inr (JObj []), Inr (JObj []), Inr (JObj []), Inr (JObj [])]"
  by (simp add: outcomes_def outcomeOf_def chatty_subscribers invoke_def chatty_find chattySandbox_def)

lemma demo_results:
  "fst (dispatchEvent ''page:complete'' JUndefined demoSystem)
     = [JObj [(''from'', JNum 0), (''options'', JArr [])], JNull, JNull]"
  by (simp add: dispatchEvent_results demo_outcomes)

lemma chatty_results:
  "fst (dispatchEvent ''page:complete'' JUndefined chattySystem)
     = [JObj [], JObj [], JObj [], JObj []]"
  by (simp add: dispatchEvent_results chatty_outcomes)

theorem completer_single_answer_witness:
  "fst (completer demoEditor) = JObj [(''from'', JNum 0), (''options'', JArr [])]
   \<and> console (snd (completer demoEditor)) = []
   \<and> fst (completer (demoEditor\<lparr>system := chattySystem\<rparr>)) = JNull
   \<and> console (snd (completer (demoEditor\<lparr>system := chattySystem\<rparr>)))
       = [''Got completion results from multiple sources, cannot deal with that'']"
proof -
  have s: "system demoEditor = demoSystem" "console demoEditor = []"
    by (simp_all add: demoEditor_def)
  have one: "filter truthy (fst (dispatchAppEvent ''page:complete'' JUndefined demoEditor))
      = [JObj [(''from'', JNum 0), (''options'', JArr [])]]"
    by (simp add: dispatchAppEvent_results s demo_results)
  have many: "2 \<le> length (filter truthy
      (fst (dispatchAppEvent ''page:complete'' JUndefined (demoEditor\<lparr>system := chattySystem\<rparr>))))"
    by (simp add: dispatchAppEvent_results chatty_results)
  have a: "fst (completer demoEditor) = JObj [(''from'', JNum 0), (''options'', JArr [])]
      \<and> console (snd (completer demoEditor)) = console demoEditor"
    using completer_single_answer [of demoEditor "JObj [(''from'', JNum 0), (''options'', JArr [])]"] one
    by blast
  have b: "fst (completer (demoEditor\<lparr>system := chattySystem\<rparr>)) = JNull
      \<and> console (snd (completer (demoEditor\<lparr>system := chattySystem\<rparr>)))
          = console (demoEditor\<lparr>system := chattySystem\<rparr>)
            @ [''Got completion results from multiple sources, cannot deal with that'']"
    using completer_single_answer [of "demoEditor\<lparr>system := chattySystem\<rparr>" JNull] many
    by blast
  from a b show ?thesis by (simp add: s)
qed

section \<open>Properties of the syscall registry\<close>

lemma map_of_bind_same: "map_of (bind n b tab) n = Some b"
  by (induction tab) (auto simp: bind_def)

lemma map_of_bind_other: "m \<noteq> n \<Longrightarrow> map_of (bind n b tab) m = map_of tab m"
  by (induction tab) (auto simp: bind_def)

lemma map_of_bind: "map_of (bind n b tab) m = (if m = n then Some b else map_of tab m)"
  by (simp add: map_of_bind_same map_of_bind_other)

lemma register_lookup:
  "map_of (syscalls (register n e f sys)) n
     = Some \<lparr>impl = f, requiredEnv = e, capability = None, bindingOwner = None\<rparr>"
  by (simp add: register_def map_of_bind_same)

text \<open>
  C2. A syscall bound with the environment \<open>server\<close> and dispatched for a caller in the
  \<open>client\<close> environment fails with \<open>EnvironmentMismatch\<close>; the system, with its record
  of executed implementations, is unchanged. The same holds with the two environments
  exchanged.
\<close>

theorem syscall_environment_mismatch:
  assumes "map_of (syscalls sys) n = Some b"
  shows "(requiredEnv b = Some Server \<longrightarrow>
            syscallDispatch Client n args sys = (Inl EnvironmentMismatch, sys)
            \<and> executed (snd (syscallDispatch Client n args sys)) = executed sys)
       \<and> (requiredEnv b = Some Client \<longrightarrow>
            syscallDispatch Server n args sys = (Inl EnvironmentMismatch, sys)
            \<and> executed (snd (syscallDispatch Server n args sys)) = executed sys)"
  using assms by (simp add: syscallDispatch_def)

theorem syscall_environment_mismatch_witness:
  "syscallDispatch Client ''core.unfurlExec'' [JStr ''https://example.com''] demoSystem
     = (Inl EnvironmentMismatch, demoSystem)
   \<and> executed (snd (syscallDispatch Client ''core.unfurlExec'' [JStr ''https://example.com''] demoSystem)) = []
   \<and> syscallDispatch Server ''space.readPage'' [] (register ''space.readPage'' (Some Client) (\<lambda>args. Inr JNull) (newSystem Server))
     = (Inl EnvironmentMismatch, register ''space.readPage'' (Some Client) (\<lambda>args. Inr JNull) (newSystem Server))"
proof -
  let ?b = "\<lparr>impl = sandboxImpl demoSandbox ''unfurlExec'', requiredEnv = Some Server,
           capability = None, bindingOwner = Some (''core'', 1::nat)\<rparr>"
  have l: "map_of (syscalls demoSystem) ''core.unfurlExec'' = Some ?b"
    by (simp add: demoSystem_def newSystem_def)
  have x: "executed demoSystem = []"
    by (simp add: demoSystem_def newSystem_def)
  have a: "syscallDispatch Client ''core.unfurlExec'' [JStr ''https://example.com''] demoSystem
     = (Inl EnvironmentMismatch, demoSystem)
     \<and> executed (snd (syscallDispatch Client ''core.unfurlExec'' [JStr ''https://example.com''] demoSystem)) = executed demoSystem"
    using syscall_environment_mismatch [OF l, of "[JStr ''https://example.com'']"] by simp
  have b: "syscallDispatch Server ''space.readPage'' [] (register ''space.readPage'' (Some Client) (\<lambda>args. Inr JNull) (newSystem Server))
     = (Inl EnvironmentMismatch, register ''space.readPage'' (Some Client) (\<lambda>args. Inr JNull) (newSystem Server))"
    using syscall_environment_mismatch
            [OF register_lookup [of "''space.readPage''" "Some Client" "\<lambda>args. Inr JNull" "newSystem Server"], of "[]"]
    by simp
  from a b x show ?thesis by simp
qed

section \<open>Properties of page namespace routing\<close>



lemma search_units:
  "codeUnits (searchGlyph @ s) = [0xD83D, 0xDD0D] @ codeUnits s"
  by (simp add: codeUnits_def searchGlyph_def utf16_def)

lemma cloud_units:
  "codeUnits (cloudGlyph @ s) = [0xD83D, 0xDCAD] @ codeUnits s"
  by (simp add: codeUnits_def cloudGlyph_def utf16_def)


lemma tail_units: "codeUnits '' .+'' = [0x20, 0x2E, 0x2B]"
  by (simp add: codeUnits_def utf16_def)


lemma search_rx:
  "searchPattern = RxSeq (RxChar 0xD83D) (RxSeq (RxChar 0xDD0D) (RxSeq (RxChar 0x20)
      (RxSeq (RxSeq RxDot (RxStar RxDot)) RxEps)))"
  by (simp add: searchPattern_def compileRx_def search_units tail_units metaChar_def rxAtom_def)

lemma cloud_rx:
  "cloudPattern = RxSeq (RxChar 0xD83D) (RxSeq (RxChar 0xDCAD) (RxSeq (RxChar 0x20)
      (RxSeq (RxSeq RxDot (RxStar RxDot)) RxEps)))"
  by (simp add: cloudPattern_def compileRx_def cloud_units tail_units metaChar_def rxAtom_def)

lemma search_compiled: "compileRx (searchGlyph @ '' .+'') = Some searchPattern"
  by (simp add: search_rx compileRx_def search_units tail_units metaChar_def rxAtom_def)

lemma cloud_compiled: "compileRx (cloudGlyph @ '' .+'') = Some cloudPattern"
  by (simp add: cloud_rx compileRx_def cloud_units tail_units metaChar_def rxAtom_def)








section \<open>Properties of saving\<close>

lemma saveCallback_clean:
  "\<not> unsavedChanges (viewState e) \<or> forcedROMode (viewState e) \<Longrightarrow>
   saveCallback tid e = settle tid Resolved e"
  by (auto simp: saveCallback_def split: option.splits)

text \<open>
  C9. When the timer armed by \<open>save\<close> fires while the view state has no unsaved changes
  or the forced read-only mode is on, the promise of \<open>save\<close> is resolved and the space
  is left as it was: no call to \<open>writePage\<close> is issued and the stored pages are unchanged.
\<close>

theorem save_without_changes_writes_nothing:
  assumes "find (\<lambda>t. timerId t = tid) (timers e) = Some t"
      and "callback t = SaveCallback"
      and "\<not> unsavedChanges (viewState e) \<or> forcedROMode (viewState e)"
  shows "space (fireTimer tid e) = space e
       \<and> writes (space (fireTimer tid e)) = writes (space e)
       \<and> pages (space (fireTimer tid e)) = pages (space e)
       \<and> promises (fireTimer tid e) = promises e @ [(tid, Resolved)]"
proof -
  let ?e1 = "e\<lparr>timers := filter (\<lambda>t. timerId t \<noteq> tid) (timers e), clock := max (clock e) (due t)\<rparr>"
  have "saveCallback tid ?e1 = settle tid Resolved ?e1"
    using assms(3) by (intro saveCallback_clean) simp
  then have "fireTimer tid e = settle tid Resolved ?e1"
    using assms(1,2) by (simp add: fireTimer_def)
  then show ?thesis by (simp add: settle_def)
qed

lemma demo_fields:
  "timers demoEditor = []" "timerSeq demoEditor = 0" "saveTimeout demoEditor = None"
  "clock demoEditor = 0" "promises demoEditor = []" "space demoEditor = demoSpace"
  "editorView demoEditor = Some demoView" "console demoEditor = []"
  "system demoEditor = demoSystem" "collabState demoEditor = None" "openPages demoEditor = []"
  "currentPage (viewState demoEditor) = Some ''index''"
  "unsavedChanges (viewState demoEditor) = False"
  "forcedROMode (viewState demoEditor) = False"
  "reducer demoEditor = exampleReducer"
  by (simp_all add: demoEditor_def)

lemma save_demo:
  "save False demoEditor =
     demoEditor\<lparr>timerSeq := 1, timers := [\<lparr>timerId = 1, due = 1000, callback = SaveCallback\<rparr>],
                saveTimeout := Some 1\<rparr>"
  by (simp add: save_def setTimeout_def demo_fields saveInterval_def demoEditor_def)

theorem save_without_changes_writes_nothing_witness:
  "space (fireTimer 1 (save False demoEditor)) = demoSpace
   \<and> promises (fireTimer 1 (save False demoEditor)) = [(1, Resolved)]
   \<and> space (fireTimer 1 (save False readOnlyEditor)) = demoSpace"
proof -
  let ?t = "\<lparr>timerId = 1, due = 1000, callback = SaveCallback\<rparr>"
  let ?e = "save False demoEditor"
  have 1: "find (\<lambda>t. timerId t = 1) (timers ?e) = Some ?t"
    by (simp add: save_demo)
  have 2: "callback ?t = SaveCallback" by simp
  have 3: "\<not> unsavedChanges (viewState ?e) \<or> forcedROMode (viewState ?e)"
    by (simp add: save_demo demo_fields)
  note r = save_without_changes_writes_nothing [OF 1 2 3]
  have "space (fireTimer 1 ?e) = space ?e" using r by blast
  then have a1: "space (fireTimer 1 ?e) = demoSpace"
    by (simp add: save_demo demo_fields)
  have "promises (fireTimer 1 ?e) = promises ?e @ [(1, Resolved)]" using r by blast
  then have a2: "promises (fireTimer 1 ?e) = [(1, Resolved)]"
    by (simp add: save_demo demo_fields)
  have s: "save False readOnlyEditor
             = readOnlyEditor\<lparr>timerSeq := 1, timers := [?t], saveTimeout := Some 1\<rparr>"
    by (simp add: save_def setTimeout_def saveInterval_def readOnlyEditor_def dirtyEditor_def
          demoEditor_def)
  have 4: "find (\<lambda>t. timerId t = 1) (timers (save False readOnlyEditor)) = Some ?t"
    by (simp add: s)
  have 5: "\<not> unsavedChanges (viewState (save False readOnlyEditor))
           \<or> forcedROMode (viewState (save False readOnlyEditor))"
    by (simp add: s) (simp add: readOnlyEditor_def)
  have "space (fireTimer 1 (save False readOnlyEditor)) = space (save False readOnlyEditor)"
    using save_without_changes_writes_nothing [OF 4 2 5] by blast
  then have b: "space (fireTimer 1 (save False readOnlyEditor)) = demoSpace"
    by (simp add: s) (simp add: readOnlyEditor_def dirtyEditor_def demo_fields)
  from a1 a2 b show ?thesis by blast
qed


lemma save_timers:
  "timers (save immediate e) =
     filter (\<lambda>t. \<not> (saveTimeout e = Some (timerId t) \<and> timerId t \<noteq> 0)) (timers e)
       @ [\<lparr>timerId = Suc (timerSeq e), due = clock e + delay immediate, callback = SaveCallback\<rparr>]"
  by (cases "saveTimeout e")
     (auto simp: save_def setTimeout_def clearTimeout_def delay_def Let_def intro: filter_cong)

lemma save_fields:
  "saveTimeout (save immediate e) = Some (Suc (timerSeq e))"
  "timerSeq (save immediate e) = Suc (timerSeq e)"
  "clock (save immediate e) = clock e"
  "space (save immediate e) = space e"
  "viewState (save immediate e) = viewState e"
  "editorView (save immediate e) = editorView e"
  "promises (save immediate e) = promises e"
  by (cases "saveTimeout e"; simp add: save_def setTimeout_def clearTimeout_def Let_def)+

lemma save_armed:
  assumes "tidy e"
  shows "armed (save immediate e) =
           [\<lparr>timerId = Suc (timerSeq e), due = clock e + delay immediate, callback = SaveCallback\<rparr>]"
proof -
  have "filter (\<lambda>t. callback t = SaveCallback \<or> callback t = RetrySave)
          (filter (\<lambda>t. \<not> (saveTimeout e = Some (timerId t) \<and> timerId t \<noteq> 0)) (timers e)) = []"
    using assms by (auto simp: tidy_def armed_def filter_empty_conv)
  then show ?thesis by (simp add: armed_def save_timers)
qed

lemma save_tidy:
  assumes "tidy e"
  shows "tidy (save immediate e)"
proof -
  have ids: "\<forall>t \<in> set (timers (save immediate e)). 0 < timerId t \<and> timerId t \<le> timerSeq (save immediate e)"
    using assms by (auto simp: tidy_def save_timers save_fields)
  have arm: "\<forall>t \<in> set (armed (save immediate e)). saveTimeout (save immediate e) = Some (timerId t)"
    by (simp add: save_armed [OF assms] save_fields)
  have "\<forall>t \<in> set (timers e). timerId t \<noteq> Suc (timerSeq e)"
    using assms by (auto simp: tidy_def)
  then have dis: "distinct (map timerId (timers (save immediate e)))"
    using assms by (auto simp: tidy_def save_timers distinct_map_filter)
  from ids dis arm show ?thesis by (simp add: tidy_def)
qed

lemma tidy_clock: "tidy (e\<lparr>clock := c\<rparr>) = tidy e"
  by (simp add: tidy_def armed_def)

lemma burst_frame:
  "space (burst bs e) = space e \<and> viewState (burst bs e) = viewState e
   \<and> editorView (burst bs e) = editorView e
   \<and> clock (burst bs e) = clock e + sum_list (map fst bs)"
  by (induction bs arbitrary: e) (auto simp: save_fields)

lemma burst_armed:
  "tidy e \<Longrightarrow> bs \<noteq> [] \<Longrightarrow>
   tidy (burst bs e)
   \<and> saveTimeout (burst bs e) = Some (timerSeq (burst bs e))
   \<and> armed (burst bs e) =
       [\<lparr>timerId = timerSeq (burst bs e), due = clock (burst bs e) + delay (snd (last bs)),
         callback = SaveCallback\<rparr>]"
proof (induction bs arbitrary: e)
  case Nil
  then show ?case by simp
next
  case (Cons b bs)
  obtain gap immediate where b: "b = (gap, immediate)" by (cases b)
  let ?e1 = "save immediate (e\<lparr>clock := clock e + gap\<rparr>)"
  have t1: "tidy ?e1"
    using Cons.prems(1) by (intro save_tidy) (simp add: tidy_clock)
  show ?case
  proof (cases "bs = []")
    case True
    have "armed ?e1 = [\<lparr>timerId = Suc (timerSeq e), due = clock e + gap + delay immediate,
                         callback = SaveCallback\<rparr>]"
      using save_armed [of "e\<lparr>clock := clock e + gap\<rparr>" immediate] Cons.prems(1)
      by (simp add: tidy_clock)
    with True t1 show ?thesis by (simp add: b save_fields)
  next
    case False
    with Cons.IH [OF t1] show ?thesis by (simp add: b)
  qed
qed

lemma fire_other:
  assumes "armed e = [a]" and "tid \<noteq> timerId a"
  shows "space (fireTimer tid e) = space e"
proof (cases "find (\<lambda>t. timerId t = tid) (timers e)")
  case None
  then show ?thesis by (simp add: fireTimer_def)
next
  case (Some t)
  then have t: "t \<in> set (timers e)" "timerId t = tid"
    by (auto simp: find_Some_iff)
  have "t \<notin> set (armed e)" using assms t by auto
  with t(1) have "callback t \<noteq> SaveCallback" "callback t \<noteq> RetrySave"
    by (auto simp: armed_def)
  then obtain i where "callback t = DismissCallback i" by (cases "callback t") auto
  with Some show ?thesis by (simp add: fireTimer_def viewDispatch_def)
qed

lemma fire_dirty:
  assumes "find (\<lambda>t. timerId t = tid) (timers e) = Some t"
      and "callback t = SaveCallback"
      and "currentPage (viewState e) = Some page" and "page \<noteq> []"
      and "unsavedChanges (viewState e)" and "\<not> forcedROMode (viewState e)"
      and "editorView e = Some v"
  shows "writes (space (fireTimer tid e)) = writes (space e) @ [(page, doc (state v))]"
  using assms
  by (auto simp: fireTimer_def saveCallback_def consoleLog_def writePage_def Let_def
        split: prod.splits)

lemma armed_find:
  assumes "armed e = [a]" and "distinct (map timerId (timers e))"
  shows "find (\<lambda>t. timerId t = timerId a) (timers e) = Some a"
proof -
  have a: "a \<in> set (timers e)" using assms(1)
    by (metis armed_def filter_is_subset list.set_intros(1) subsetD)
  then obtain t where f: "find (\<lambda>t. timerId t = timerId a) (timers e) = Some t"
    by (cases "find (\<lambda>t. timerId t = timerId a) (timers e)") (auto simp: find_None_iff)
  then have t: "t \<in> set (timers e)" "timerId t = timerId a" by (auto simp: find_Some_iff)
  have "inj_on timerId (set (timers e))" using assms(2) by (simp add: distinct_map)
  with a t have "t = a" by (auto dest: inj_onD)
  with f show ?thesis by simp
qed

lemma burst_seq: "timerSeq (burst bs e) = timerSeq e + length bs"
  by (induction bs arbitrary: e) (auto simp: save_fields)

declare burst.simps [simp del]

text \<open>
  While every pending save or retry timer is the one whose handle is in \<open>saveTimeout\<close>,
  every call of \<open>save\<close> cancels the timer armed before and arms a new one for the full
  delay from the time of the call: \<open>saveInterval\<close>, or 0 for an immediate save. After
  a burst of calls, with no timer fired in between, the only pending save timer is then
  the one of the last call; no other pending timer touches the space, and firing the
  last one on a page with unsaved changes issues exactly one \<open>writePage\<close>.
\<close>

lemma burst_collapses:
  assumes "tidy e" and "bs \<noteq> []"
  shows "timers (save immediate e) =
           filter (\<lambda>t. saveTimeout e \<noteq> Some (timerId t)) (timers e)
             @ [\<lparr>timerId = Suc (timerSeq e), due = clock e + delay immediate,
                 callback = SaveCallback\<rparr>]
       \<and> saveTimeout (save immediate e) = Some (Suc (timerSeq e))
       \<and> delay True = 0 \<and> delay False = saveInterval
       \<and> armed (burst bs e) =
           [\<lparr>timerId = timerSeq (burst bs e),
             due = clock e + sum_list (map fst bs) + delay (snd (last bs)),
             callback = SaveCallback\<rparr>]
       \<and> (\<forall>tid. tid \<noteq> timerSeq (burst bs e) \<longrightarrow>
             space (fireTimer tid (burst bs e)) = space e)
       \<and> (\<forall>page v. currentPage (viewState e) = Some page \<and> page \<noteq> []
             \<and> unsavedChanges (viewState e) \<and> \<not> forcedROMode (viewState e)
             \<and> editorView e = Some v \<longrightarrow>
             writes (space (fireTimer (timerSeq (burst bs e)) (burst bs e)))
               = writes (space e) @ [(page, doc (state v))])"
proof -
  let ?e' = "burst bs e"
  let ?a = "\<lparr>timerId = timerSeq ?e', due = clock ?e' + delay (snd (last bs)),
             callback = SaveCallback\<rparr>"
  have pos: "\<forall>t \<in> set (timers e). timerId t \<noteq> 0"
    using assms(1) by (auto simp: tidy_def)
  then have "filter (\<lambda>t. \<not> (saveTimeout e = Some (timerId t) \<and> timerId t \<noteq> 0)) (timers e)
           = filter (\<lambda>t. saveTimeout e \<noteq> Some (timerId t)) (timers e)"
    by (intro filter_cong) auto
  then have one: "timers (save immediate e) =
           filter (\<lambda>t. saveTimeout e \<noteq> Some (timerId t)) (timers e)
             @ [\<lparr>timerId = Suc (timerSeq e), due = clock e + delay immediate,
                 callback = SaveCallback\<rparr>]"
    by (simp add: save_timers)
  note b = burst_armed [OF assms]
  note f = burst_frame [of bs e]
  have arm: "armed ?e' = [?a]" using b by blast
  then have arm': "armed ?e' =
           [\<lparr>timerId = timerSeq ?e',
             due = clock e + sum_list (map fst bs) + delay (snd (last bs)),
             callback = SaveCallback\<rparr>]"
    using f by simp
  have others: "\<forall>tid. tid \<noteq> timerSeq ?e' \<longrightarrow> space (fireTimer tid ?e') = space e"
    using fire_other [OF arm] f by simp
  have dis: "distinct (map timerId (timers ?e'))"
    using b by (simp add: tidy_def)
  have found: "find (\<lambda>t. timerId t = timerSeq ?e') (timers ?e') = Some ?a"
    using armed_find [OF arm dis] by simp
  have last: "\<forall>page v. currentPage (viewState e) = Some page \<and> page \<noteq> []
             \<and> unsavedChanges (viewState e) \<and> \<not> forcedROMode (viewState e)
             \<and> editorView e = Some v \<longrightarrow>
             writes (space (fireTimer (timerSeq ?e') ?e'))
               = writes (space e) @ [(page, doc (state v))]"
  proof (intro allI impI)
    fix page v
    assume h: "currentPage (viewState e) = Some page \<and> page \<noteq> []
             \<and> unsavedChanges (viewState e) \<and> \<not> forcedROMode (viewState e)
             \<and> editorView e = Some v"
    have "writes (space (fireTimer (timerSeq ?e') ?e'))
            = writes (space ?e') @ [(page, doc (state v))]"
      using h f by (intro fire_dirty [OF found]) simp_all
    then show "writes (space (fireTimer (timerSeq ?e') ?e'))
               = writes (space e) @ [(page, doc (state v))]"
      using f by simp
  qed
  from one arm' others last show ?thesis
    by (simp add: save_fields delay_def)
qed

lemma unreachable_fields:
  "timers unreachableEditor = []" "timerSeq unreachableEditor = 0"
  "saveTimeout unreachableEditor = None" "clock unreachableEditor = 0"
  "space unreachableEditor = demoSpace\<lparr>online := False\<rparr>"
  "editorView unreachableEditor = Some demoView"
  "viewState unreachableEditor = (viewState demoEditor)\<lparr>unsavedChanges := True\<rparr>"
  "inflight unreachableEditor = []" "promises unreachableEditor = []"
  "randoms unreachableEditor = []" "reducer unreachableEditor = exampleReducer"
  by (simp_all add: unreachableEditor_def dirtyEditor_def demoEditor_def)

lemma raced_fields:
  "timers racedEditor =
     [\<lparr>timerId = 2, due = 2100, callback = SaveCallback\<rparr>,
      \<lparr>timerId = 3, due = 6150, callback = DismissCallback 0\<rparr>,
      \<lparr>timerId = 4, due = 11150, callback = RetrySave\<rparr>]"
  "saveTimeout racedEditor = Some 4"
  "timerSeq racedEditor = 4"
  "clock racedEditor = 1150"
  "promises racedEditor = [(1, Rejected (Error ''Offline''))]"
  "inflight racedEditor = []"
  "writes (space racedEditor) = [(''index'', ''Hello'')]"
  "editorView racedEditor = Some demoView"
  "currentPage (viewState racedEditor) = Some ''index''"
  "unsavedChanges (viewState racedEditor)"
  "\<not> forcedROMode (viewState racedEditor)"
  by (simp_all add: racedEditor_def save_def setTimeout_def clearTimeout_def fireTimer_def
        saveCallback_def writeSettled_def writePage_def flashNotification_def settle_def
        viewDispatch_def consoleLog_def saveInterval_def unreachable_fields Let_def
        demoEditor_def demoSpace_def demoView_def exampleReducer_def)

lemma raced_burst:
  "timers (burst [(100, False), (100, False)] racedEditor) =
     [\<lparr>timerId = 2, due = 2100, callback = SaveCallback\<rparr>,
      \<lparr>timerId = 3, due = 6150, callback = DismissCallback 0\<rparr>,
      \<lparr>timerId = 6, due = 2350, callback = SaveCallback\<rparr>]"
  by (simp add: burst.simps save_timers save_fields raced_fields delay_def saveInterval_def)

text \<open>
  C5 fails once a write has failed while a later call of \<open>save\<close> was pending. The
  editor has unsaved changes and its space cannot be reached. \<open>save\<close> is called, its
  timer (handle 1) fires and starts the write; the document changes and \<open>save\<close> arms
  timer 2; the write fails, and its \<open>catch\<close> handler puts the handle of the retry
  (timer 4) into \<open>saveTimeout\<close> without clearing timer 2. The calls of \<open>save\<close> that
  follow within the interval clear the retry and each other, never timer 2: after the
  burst two save timers are pending, that of an earlier trigger and that of the last
  one, and each of them issues a \<open>writePage\<close> when it fires.
\<close>

theorem debounce_lost_after_failed_write:
  "timers (turns [CallSave False, Fire 1, Wait 100, CallSave False] unreachableEditor)
     = [\<lparr>timerId = 2, due = 2100, callback = SaveCallback\<rparr>]
   \<and> saveTimeout racedEditor = Some 4
   \<and> armed racedEditor
     = [\<lparr>timerId = 2, due = 2100, callback = SaveCallback\<rparr>,
        \<lparr>timerId = 4, due = 11150, callback = RetrySave\<rparr>]
   \<and> armed (burst [(100, False), (100, False)] racedEditor)
     = [\<lparr>timerId = 2, due = 2100, callback = SaveCallback\<rparr>,
        \<lparr>timerId = 6, due = 2350, callback = SaveCallback\<rparr>]
   \<and> writes (space (burst [(100, False), (100, False)] racedEditor)) = [(''index'', ''Hello'')]
   \<and> writes (space (fireTimer 2 (burst [(100, False), (100, False)] racedEditor)))
     = [(''index'', ''Hello''), (''index'', ''Hello'')]
   \<and> writes (space (turns [Fire 2, Fire 6] (burst [(100, False), (100, False)] racedEditor)))
     = [(''index'', ''Hello''), (''index'', ''Hello''), (''index'', ''Hello'')]"
proof -
  let ?b = "burst [(100, False), (100, False)] racedEditor"
  let ?t2 = "\<lparr>timerId = 2, due = 2100, callback = SaveCallback\<rparr>"
  let ?t6 = "\<lparr>timerId = 6, due = 2350, callback = SaveCallback\<rparr>"
  have 1: "timers (turns [CallSave False, Fire 1, Wait 100, CallSave False] unreachableEditor) = [?t2]"
    by (simp add: save_def setTimeout_def clearTimeout_def fireTimer_def saveCallback_def
          writePage_def consoleLog_def saveInterval_def unreachable_fields Let_def
          demoEditor_def demoView_def)
  have 2: "armed racedEditor = [?t2, \<lparr>timerId = 4, due = 11150, callback = RetrySave\<rparr>]"
    by (simp add: armed_def raced_fields)
  have 3: "armed ?b = [?t2, ?t6]"
    by (simp add: armed_def raced_burst)
  have f: "space ?b = space racedEditor" "viewState ?b = viewState racedEditor"
      "editorView ?b = editorView racedEditor"
    using burst_frame [of "[(100, False), (100, False)]" racedEditor] by simp_all
  have 4: "writes (space ?b) = [(''index'', ''Hello'')]"
    by (simp add: f raced_fields)
  have f2: "find (\<lambda>t. timerId t = 2) (timers ?b) = Some ?t2"
    by (simp add: raced_burst)
  have 5: "writes (space (fireTimer 2 ?b)) = writes (space ?b) @ [(''index'', doc (state demoView))]"
    by (rule fire_dirty [OF f2]) (simp_all add: f raced_fields)
  have v: "viewState (fireTimer 2 ?b) = viewState ?b" "editorView (fireTimer 2 ?b) = editorView ?b"
      "timers (fireTimer 2 ?b) = filter (\<lambda>t. timerId t \<noteq> 2) (timers ?b)"
    using f2
    by (simp_all add: fireTimer_def saveCallback_def f raced_fields consoleLog_def Let_def
          split: prod.splits)
  have f6: "find (\<lambda>t. timerId t = 6) (timers (fireTimer 2 ?b)) = Some ?t6"
    by (simp add: v raced_burst)
  have 6: "writes (space (fireTimer 6 (fireTimer 2 ?b)))
             = writes (space (fireTimer 2 ?b)) @ [(''index'', doc (state demoView))]"
    by (rule fire_dirty [OF f6]) (simp_all add: v f raced_fields)
  from 1 2 3 4 5 6 show ?thesis
    by (simp add: raced_fields demoView_def)
qed

subsection \<open>The invariant of the timer queue\<close>

text \<open>
  That every pending save or retry timer is the one in \<open>saveTimeout\<close> holds while no
  timer is pending, and it is kept by \<open>save\<close>, by every timer that fires and by a write
  that succeeds. A write that fails keeps it only when no save timer is pending at that
  moment.
\<close>

lemma tidy_initial: "timers e = [] \<Longrightarrow> tidy e"
  by (simp add: tidy_def armed_def)

lemma tidy_remove:
  assumes "tidy e"
  shows "tidy (e\<lparr>timers := filter (\<lambda>t. timerId t \<noteq> tid) (timers e), clock := c\<rparr>)"
  using assms by (auto simp: tidy_def armed_def distinct_map_filter)

lemma tidy_removed_armed:
  assumes "tidy e" and "find (\<lambda>t. timerId t = tid) (timers e) = Some t"
      and "callback t = SaveCallback"
  shows "armed (e\<lparr>timers := filter (\<lambda>t. timerId t \<noteq> tid) (timers e), clock := c\<rparr>) = []"
proof -
  from assms(2) have t: "t \<in> set (timers e)" "timerId t = tid"
    by (auto simp: find_Some_iff)
  with assms(3) have "t \<in> set (armed e)" by (simp add: armed_def)
  with assms(1) t have st: "saveTimeout e = Some tid" by (auto simp: tidy_def)
  have "\<forall>x \<in> set (armed e). timerId x = tid"
    using assms(1) st by (auto simp: tidy_def)
  then show ?thesis
    by (auto simp: armed_def filter_empty_conv)
qed

lemma tidy_frame:
  assumes "tidy e" and "timers e' = timers e" and "timerSeq e' = timerSeq e"
      and "saveTimeout e' = saveTimeout e"
  shows "tidy e'"
  using assms by (simp add: tidy_def armed_def)

lemma tidy_setTimeout_dismiss:
  assumes "tidy e"
  shows "tidy (setTimeout (DismissCallback i) d e)"
  using assms by (auto simp: tidy_def armed_def setTimeout_def)

lemma armed_setTimeout_dismiss: "armed (setTimeout (DismissCallback i) d e) = armed e"
  by (simp add: armed_def setTimeout_def)

lemma tidy_flash: "tidy e \<Longrightarrow> tidy (flashNotification msg ty e)"
  unfolding flashNotification_def Let_def
  by (intro tidy_setTimeout_dismiss) (simp add: tidy_def armed_def viewDispatch_def)

lemma armed_flash: "armed (flashNotification msg ty e) = armed e"
  by (simp add: flashNotification_def Let_def armed_setTimeout_dismiss)
     (simp add: armed_def viewDispatch_def)

lemma tidy_retry:
  assumes "tidy e" and "armed e = []"
  shows "tidy ((setTimeout RetrySave d e)\<lparr>saveTimeout := Some (timerSeq (setTimeout RetrySave d e))\<rparr>)"
proof -
  have "filter (\<lambda>t. callback t = SaveCallback \<or> callback t = RetrySave) (timers e) = []"
    using assms(2) by (simp add: armed_def)
  then show ?thesis
    using assms(1) by (auto simp: tidy_def armed_def setTimeout_def)
qed

lemma fireTimer_tidy:
  assumes "tidy e"
  shows "tidy (fireTimer tid e)"
proof (cases "find (\<lambda>t. timerId t = tid) (timers e)")
  case None
  with assms show ?thesis by (simp add: fireTimer_def)
next
  case (Some t)
  let ?e1 = "e\<lparr>timers := filter (\<lambda>t. timerId t \<noteq> tid) (timers e), clock := max (clock e) (due t)\<rparr>"
  have t1: "tidy ?e1" using assms by (rule tidy_remove)
  show ?thesis
  proof (cases "callback t")
    case SaveCallback
    have "tidy (saveCallback tid ?e1)"
      by (rule tidy_frame [OF t1])
         (auto simp: saveCallback_def settle_def consoleLog_def Let_def
            split: option.splits prod.splits)
    with Some SaveCallback show ?thesis by (simp add: fireTimer_def)
  next
    case RetrySave
    with Some save_tidy [OF t1, of False] show ?thesis by (simp add: fireTimer_def)
  next
    case (DismissCallback i)
    have "tidy (viewDispatch (DismissNotification i) ?e1)"
      by (rule tidy_frame [OF t1]) (simp_all add: viewDispatch_def)
    with Some DismissCallback show ?thesis by (simp add: fireTimer_def)
  qed
qed

lemma writeSettled_tidy:
  assumes "tidy e"
      and "armed e = [] \<or> (\<forall>err. map_of (inflight e) tid \<noteq> Some (Inl err))"
  shows "tidy (writeSettled tid e)"
proof (cases "map_of (inflight e) tid")
  case None
  with assms(1) show ?thesis by (simp add: writeSettled_def)
next
  case (Some r)
  let ?e1 = "e\<lparr>inflight := filter (\<lambda>w. fst w \<noteq> tid) (inflight e)\<rparr>"
  have t1: "tidy ?e1" by (rule tidy_frame [OF assms(1)]) simp_all
  show ?thesis
  proof (cases r)
    case (Inr m)
    have "tidy (settle tid Resolved (viewDispatch PageSaved ?e1))"
      by (rule tidy_frame [OF t1]) (simp_all add: settle_def viewDispatch_def)
    with Some Inr show ?thesis by (simp add: writeSettled_def)
  next
    case (Inl err)
    with assms(2) Some have a: "armed e = []" by simp
    let ?e2 = "flashNotification ''Could not save page, retrying again in 10 seconds'' ErrorNote ?e1"
    let ?e3 = "setTimeout RetrySave 10000 ?e2"
    have a1: "armed ?e1 = []" using a by (simp add: armed_def)
    have "tidy ?e2" "armed ?e2 = []"
      using t1 a1 by (simp_all add: tidy_flash armed_flash)
    then have "tidy (?e3\<lparr>saveTimeout := Some (timerSeq ?e3)\<rparr>)" by (rule tidy_retry)
    then have "tidy (settle tid (Rejected err) (?e3\<lparr>saveTimeout := Some (timerSeq ?e3)\<rparr>))"
      by (rule tidy_frame) (simp_all add: settle_def)
    with Some Inl show ?thesis by (simp add: writeSettled_def Let_def)
  qed
qed

section \<open>Properties of commands\<close>

lemma demo_commands:
  "commands (viewState demoEditor) =
     [(''Page: Delete'', deleteCommand), (''Navigate To page'', navigateCommand),
      (''Link: Unfurl'', unfurlCommand)]"
  by (simp add: demoEditor_def editorCommands_def demoSystem_def newSystem_def deleteCommand_def
        navigateCommand_def unfurlCommand_def plainCommand_def)

lemma demo_editorCommands:
  "editorCommands demoSystem =
     [(''Page: Delete'', deleteCommand), (''Navigate To page'', navigateCommand),
      (''Link: Unfurl'', unfurlCommand)]"
  by (simp add: editorCommands_def demoSystem_def newSystem_def deleteCommand_def
        navigateCommand_def unfurlCommand_def plainCommand_def)

lemma run_delete:
  "run deleteCommand demoSystem =
     (Inr (JBool True), demoSystem\<lparr>invocations := [((''core'', 1), ''deletePage'', [])]\<rparr>)"
  by (simp add: deleteCommand_def invoke_def demo_find demoSandbox_def)
     (simp add: demoSystem_def newSystem_def)

text \<open>
  C7 as stated does not hold: running a command by name does not yield the command's
  result. The command \<open>Page: Delete\<close> of the example resolves to \<open>true\<close>, and
  \<open>runCommandByName\<close> resolves to \<open>undefined\<close>.
\<close>

theorem runCommandByName_result_counterexample:
  "map_of (commands (viewState demoEditor)) ''Page: Delete'' = Some deleteCommand
   \<and> fst (run deleteCommand (system demoEditor)) = Inr (JBool True)
   \<and> fst (runCommandByName ''Page: Delete'' demoEditor) = Returns JUndefined
   \<and> fst (runCommandByName ''Page: Delete'' demoEditor) \<noteq> Returns (JBool True)"
  by (simp add: runCommandByName_def demo_commands demo_fields run_delete)

text \<open>
  C7, amended. For a name in the current command table \<open>runCommandByName\<close> runs the
  command: the system is left as the command leaves it, a failure of the command is
  thrown to the caller, and on success the call resolves to \<open>undefined\<close> (the value the
  command resolves to is dropped). For every name that is not in the table it throws
  \<open>Command <name> not found\<close> and leaves the editor unchanged.
\<close>

theorem runCommandByName_outcome:
  "(map_of (commands (viewState e)) n = Some cmd \<longrightarrow>
      snd (runCommandByName n e) = e\<lparr>system := snd (run cmd (system e))\<rparr>
      \<and> fst (runCommandByName n e) =
          (case fst (run cmd (system e)) of
             Inr v \<Rightarrow> Returns JUndefined
           | Inl f \<Rightarrow> Throws (Error (failureMessage f))))
   \<and> (map_of (commands (viewState e)) n = None \<longrightarrow>
      runCommandByName n e = (Throws (Error (''Command '' @ n @ '' not found'')), e))"
  by (auto simp: runCommandByName_def split: prod.splits sum.splits)

theorem runCommandByName_outcome_witness:
  "runCommandByName ''Page: Delete'' demoEditor =
     (Returns JUndefined,
      demoEditor\<lparr>system := demoSystem\<lparr>invocations := [((''core'', 1), ''deletePage'', [])]\<rparr>\<rparr>)
   \<and> runCommandByName ''Page: Remove'' demoEditor =
     (Throws (Error ''Command Page: Remove not found''), demoEditor)"
proof -
  have f: "map_of (commands (viewState demoEditor)) ''Page: Delete'' = Some deleteCommand"
    by (simp add: demo_commands)
  have g: "map_of (commands (viewState demoEditor)) ''Page: Remove'' = None"
    by (simp add: demo_commands)
  note r1 = runCommandByName_outcome [of demoEditor "''Page: Delete''" deleteCommand]
  note r2 = runCommandByName_outcome [of demoEditor "''Page: Remove''" deleteCommand]
  have a: "snd (runCommandByName ''Page: Delete'' demoEditor)
             = demoEditor\<lparr>system := snd (run deleteCommand (system demoEditor))\<rparr>"
    using r1 f by blast
  have b: "fst (runCommandByName ''Page: Delete'' demoEditor) =
          (case fst (run deleteCommand (system demoEditor)) of
             Inr v \<Rightarrow> Returns JUndefined
           | Inl f \<Rightarrow> Throws (Error (failureMessage f)))"
    using r1 f by blast
  have c: "runCommandByName ''Page: Remove'' demoEditor =
     (Throws (Error (''Command '' @ ''Page: Remove'' @ '' not found'')), demoEditor)"
    using r2 g by blast
  have "runCommandByName ''Page: Delete'' demoEditor =
     (Returns JUndefined,
      demoEditor\<lparr>system := demoSystem\<lparr>invocations := [((''core'', 1), ''deletePage'', [])]\<rparr>\<rparr>)"
    using a b by (simp add: prod_eq_iff demo_fields run_delete)
  with c show ?thesis by simp
qed

lemma flash_system: "system (flashNotification msg ty e) = system e"
  by (simp add: flashNotification_def setTimeout_def viewDispatch_def Let_def)

lemma runAndFocus_system: "system (runAndFocus def e) = snd (run def (system e))"
  by (simp add: runAndFocus_def focus_def flash_system consoleLog_def split: prod.splits sum.splits)

lemma binding_created:
  assumes "(n, def) \<in> set (editorCommands (system e))" and "truthyStr (key (appCommand def))"
  shows "\<lparr>bindKey = the (key (appCommand def)), bindMac = mac (appCommand def),
          bindRun = RunCommand def\<rparr> \<in> set (keyBindings (createEditorState p t e))"
proof -
  have "def \<in> set (filter (\<lambda>d. truthyStr (key (appCommand d))) (map snd (editorCommands (system e))))"
    using assms by force
  then show ?thesis
    by (simp add: createEditorState_def commandKeyBindings_def image_iff)
qed

text \<open>
  C8. Every editor command with a key gets a key binding. For a command that declares
  \<open>contexts\<close>, the handler returns \<open>false\<close> and leaves the editor unchanged when the
  context is absent or not in the list; it returns \<open>true\<close> only when the context is in
  the list, and then the command runs. For a command without \<open>contexts\<close> the handler
  always runs the command and returns \<open>true\<close>.
\<close>

theorem key_binding_context_filter:
  "(contexts (appCommand def) = Some ctxs \<longrightarrow>
       ((getContext e = Returns None \<or> (\<exists>c. getContext e = Returns (Some c) \<and> c \<notin> set ctxs)) \<longrightarrow>
          runKeyBinding (RunCommand def) e = (Returns False, e))
     \<and> (fst (runKeyBinding (RunCommand def) e) = Returns True \<longrightarrow>
          (\<exists>c. getContext e = Returns (Some c) \<and> c \<in> set ctxs))
     \<and> (\<forall>c. getContext e = Returns (Some c) \<and> c \<noteq> [] \<and> c \<in> set ctxs \<longrightarrow>
          runKeyBinding (RunCommand def) e = (Returns True, runAndFocus def e)))
   \<and> (contexts (appCommand def) = None \<longrightarrow>
        runKeyBinding (RunCommand def) e = (Returns True, runAndFocus def e))
   \<and> system (runAndFocus def e) = snd (run def (system e))
   \<and> (\<forall>n p t. (n, def) \<in> set (editorCommands (system e)) \<and> truthyStr (key (appCommand def)) \<longrightarrow>
        \<lparr>bindKey = the (key (appCommand def)), bindMac = mac (appCommand def),
         bindRun = RunCommand def\<rparr> \<in> set (keyBindings (createEditorState p t e)))"
proof -
  have a: "contexts (appCommand def) = Some ctxs \<longrightarrow>
       ((getContext e = Returns None \<or> (\<exists>c. getContext e = Returns (Some c) \<and> c \<notin> set ctxs)) \<longrightarrow>
          runKeyBinding (RunCommand def) e = (Returns False, e))"
    by (auto simp: runKeyBinding_def)
  have b: "contexts (appCommand def) = Some ctxs \<longrightarrow>
      (fst (runKeyBinding (RunCommand def) e) = Returns True \<longrightarrow>
          (\<exists>c. getContext e = Returns (Some c) \<and> c \<in> set ctxs))"
    by (auto simp: runKeyBinding_def split: if_splits Outcome.splits elim!: truthyStr.elims)
  have c: "contexts (appCommand def) = Some ctxs \<longrightarrow>
      (\<forall>c. getContext e = Returns (Some c) \<and> c \<noteq> [] \<and> c \<in> set ctxs \<longrightarrow>
          runKeyBinding (RunCommand def) e = (Returns True, runAndFocus def e))"
    by (auto simp: runKeyBinding_def)
  have d: "contexts (appCommand def) = None \<longrightarrow>
        runKeyBinding (RunCommand def) e = (Returns True, runAndFocus def e)"
    by (simp add: runKeyBinding_def)
  have f: "\<forall>n p t. (n, def) \<in> set (editorCommands (system e)) \<and> truthyStr (key (appCommand def)) \<longrightarrow>
        \<lparr>bindKey = the (key (appCommand def)), bindMac = mac (appCommand def),
         bindRun = RunCommand def\<rparr> \<in> set (keyBindings (createEditorState p t e))"
    using binding_created by blast
  from a b c d f runAndFocus_system [of "def" e] show ?thesis by blast
qed


lemma demo_context: "getContext demoEditor = Returns (Some ''Paragraph'')"
  by (simp add: getContext_def demoEditor_def demoView_def)

lemma url_context: "getContext urlEditor = Returns (Some ''NakedURL'')"
  by (simp add: getContext_def urlEditor_def demoEditor_def demoView_def)

lemma unfurl_contexts: "contexts (appCommand unfurlCommand) = Some [''NakedURL'']"
  by (simp add: unfurlCommand_def plainCommand_def)

lemma run_unfurl:
  "snd (run unfurlCommand demoSystem) =
     demoSystem\<lparr>invocations := [((''core'', 1), ''unfurlLink'', [])]\<rparr>"
  by (simp add: unfurlCommand_def invoke_def demo_find)
     (simp add: demoSystem_def newSystem_def)

theorem key_binding_context_filter_witness:
  "runKeyBinding (RunCommand unfurlCommand) demoEditor = (Returns False, demoEditor)
   \<and> runKeyBinding (RunCommand unfurlCommand) urlEditor
       = (Returns True, runAndFocus unfurlCommand urlEditor)
   \<and> system (runAndFocus unfurlCommand urlEditor)
       = demoSystem\<lparr>invocations := [((''core'', 1), ''unfurlLink'', [])]\<rparr>
   \<and> runKeyBinding (RunCommand navigateCommand) demoEditor
       = (Returns True, runAndFocus navigateCommand demoEditor)
   \<and> \<lparr>bindKey = ''Ctrl-Shift-u'', bindMac = Some ''Cmd-Shift-u'', bindRun = RunCommand unfurlCommand\<rparr>
       \<in> set (keyBindings (createEditorState ''index'' ''Hello'' demoEditor))"
proof -
  note r1 = key_binding_context_filter [of unfurlCommand "[''NakedURL'']" demoEditor]
  note r2 = key_binding_context_filter [of unfurlCommand "[''NakedURL'']" urlEditor]
  note r3 = key_binding_context_filter [of navigateCommand "[]" demoEditor]
  have "\<exists>c. getContext demoEditor = Returns (Some c) \<and> c \<notin> set [''NakedURL'']"
    by (simp add: demo_context)
  with r1 unfurl_contexts
  have a: "runKeyBinding (RunCommand unfurlCommand) demoEditor = (Returns False, demoEditor)"
    by blast
  have "getContext urlEditor = Returns (Some ''NakedURL'') \<and> ''NakedURL'' \<noteq> []
        \<and> ''NakedURL'' \<in> set [''NakedURL'']"
    by (simp add: url_context)
  with r2 unfurl_contexts
  have b: "runKeyBinding (RunCommand unfurlCommand) urlEditor
       = (Returns True, runAndFocus unfurlCommand urlEditor)"
    by blast
  have "system (runAndFocus unfurlCommand urlEditor) = snd (run unfurlCommand (system urlEditor))"
    using r2 by blast
  then have c: "system (runAndFocus unfurlCommand urlEditor)
       = demoSystem\<lparr>invocations := [((''core'', 1), ''unfurlLink'', [])]\<rparr>"
    by (simp add: urlEditor_def demo_fields run_unfurl)
  have "contexts (appCommand navigateCommand) = None"
    by (simp add: navigateCommand_def plainCommand_def)
  with r3 have d: "runKeyBinding (RunCommand navigateCommand) demoEditor
       = (Returns True, runAndFocus navigateCommand demoEditor)"
    by blast
  have "(''Link: Unfurl'', unfurlCommand) \<in> set (editorCommands (system demoEditor))
        \<and> truthyStr (key (appCommand unfurlCommand))"
    by (simp add: demo_fields demo_editorCommands) (simp add: unfurlCommand_def plainCommand_def)
  with r1 have "\<lparr>bindKey = the (key (appCommand unfurlCommand)), bindMac = mac (appCommand unfurlCommand),
         bindRun = RunCommand unfurlCommand\<rparr>
       \<in> set (keyBindings (createEditorState ''index'' ''Hello'' demoEditor))"
    by blast
  moreover have "the (key (appCommand unfurlCommand)) = ''Ctrl-Shift-u''"
     "mac (appCommand unfurlCommand) = Some ''Cmd-Shift-u''"
    by (simp_all add: unfurlCommand_def plainCommand_def)
  ultimately have f: "\<lparr>bindKey = ''Ctrl-Shift-u'', bindMac = Some ''Cmd-Shift-u'',
         bindRun = RunCommand unfurlCommand\<rparr>
       \<in> set (keyBindings (createEditorState ''index'' ''Hello'' demoEditor))"
    by simp
  from a b c d f show ?thesis by blast
qed

section \<open>Properties of loading a page\<close>

lemma restoreState_beyond:
  assumes "editorView e = Some v" and "map_of (openPages e) page = Some ps"
      and "length (codeUnits (doc (state v))) < max (anchor (selection ps)) (head (selection ps))"
  shows "restoreState page e =
           (Throws (Error ''RangeError: Selection points outside of document''),
            e\<lparr>editorView := Some (v\<lparr>viewScrollTop := scrollTop ps\<rparr>)\<rparr>)"
  using assms by (simp add: restoreState_def dispatchSelection_def Let_def)

lemma openDoc_beyond:
  assumes "editorView e = Some v" and "map_of (openPages e) page = Some ps"
      and "collabState e = None"
      and "length (codeUnits (docText d)) < max (anchor (selection ps)) (head (selection ps))"
  shows "fst (openDoc different page d e) =
           Throws (Error ''RangeError: Selection points outside of document'')"
    and "space (snd (openDoc different page d e)) = space e"
    and "viewState (snd (openDoc different page d e)) = viewState e"
    and "map_option (\<lambda>v. doc (state v)) (editorView (snd (openDoc different page d e)))
           = Some (docText d)"
proof -
  let ?e2 = "tweakEditorDOM (perm (docMeta d) = RO) (setState (createEditorState page (docText d) e) e)"
  let ?v = "v\<lparr>state := createEditorState page (docText d) e,
               contentEditable := \<not> (perm (docMeta d) = RO \<or> forcedROMode (viewState e))\<rparr>"
  have v: "editorView ?e2 = Some ?v"
    using assms(1) by (simp add: tweakEditorDOM_def setState_def)
  have o: "map_of (openPages ?e2) page = Some ps"
    using assms(2) by (simp add: tweakEditorDOM_def setState_def)
  have l: "length (codeUnits (doc (state ?v))) < max (anchor (selection ps)) (head (selection ps))"
    using assms(3,4) by (simp add: createEditorState_def)
  note r = restoreState_beyond [OF v o l]
  have od: "openDoc different page d e =
              (Throws (Error ''RangeError: Selection points outside of document''),
               ?e2\<lparr>editorView := Some (?v\<lparr>viewScrollTop := scrollTop ps\<rparr>)\<rparr>)"
    by (simp add: openDoc_def Let_def r)
  show "fst (openDoc different page d e) =
           Throws (Error ''RangeError: Selection points outside of document'')"
    by (simp add: od)
  show "space (snd (openDoc different page d e)) = space e"
    by (simp add: od tweakEditorDOM_def setState_def)
  show "viewState (snd (openDoc different page d e)) = viewState e"
    by (simp add: od tweakEditorDOM_def setState_def)
  show "map_option (\<lambda>v. doc (state v)) (editorView (snd (openDoc different page d e)))
           = Some (docText d)"
    using assms(3) by (simp add: od createEditorState_def)
qed

lemma readPage_watched: "readPage (sp\<lparr>watched := w\<rparr>) n = readPage sp n"
  by (simp add: readPage_def)

lemma loadPage_reload_beyond:
  assumes "editorView e = Some v" and "currentPage (viewState e) = Some page" and "page \<noteq> []"
      and "readPage (space e) page = Inl err" and "collabState e = None"
      and "0 < max (anchor (stateSelection (state v))) (head (stateSelection (state v)))"
  shows "fst (loadPage page during e) =
           Throws (Error ''RangeError: Selection points outside of document'')"
    and "map_option (\<lambda>v. doc (state v)) (editorView (snd (loadPage page during e))) = Some []"
    and "watched (space (snd (loadPage page during e))) = filter (\<lambda>w. w \<noteq> page) (watched (space e))"
proof -
  let ?ps = "\<lparr>scrollTop = viewScrollTop v, selection = stateSelection (state v)\<rparr>"
  let ?e2 = "(saveState page e)\<lparr>space := unwatchPage page (space (saveState page e))\<rparr>"
  let ?e3 = "consoleLog (''Creating new page '' @ page) (viewDispatch (PageLoading page) ?e2)"
  have cp: "closePrevious page during e = (Returns (), ?e2)"
    using assms(2,3) by (simp add: closePrevious_def Let_def)
  have rd: "readPage (space (viewDispatch (PageLoading page) ?e2)) page = Inl err"
    using assms(1,4)
    by (simp add: viewDispatch_def saveState_def unwatchPage_def readPage_watched)
  have lp: "loadPage page during e = openDoc False page (freshDoc page) ?e3"
    using assms(1,2) by (simp add: loadPage_def cp rd Let_def)
  have v: "editorView ?e3 = Some v"
    using assms(1) by (simp add: consoleLog_def viewDispatch_def saveState_def)
  have o: "map_of (openPages ?e3) page = Some ?ps"
    using assms(1) by (simp add: consoleLog_def viewDispatch_def saveState_def map_of_bind_same)
  have c: "collabState ?e3 = None"
    using assms(1,5) by (simp add: consoleLog_def viewDispatch_def saveState_def)
  have l: "length (codeUnits (docText (freshDoc page)))
             < max (anchor (selection ?ps)) (head (selection ?ps))"
    using assms(6) by (simp add: freshDoc_def codeUnits_def)
  note r = openDoc_beyond [OF v o c l, of False]
  show "fst (loadPage page during e) =
           Throws (Error ''RangeError: Selection points outside of document'')"
    using r(1) by (simp only: lp)
  show "map_option (\<lambda>v. doc (state v)) (editorView (snd (loadPage page during e))) = Some []"
    using r(4) by (simp add: lp freshDoc_def)
  have "space (snd (loadPage page during e)) = space ?e3"
    using r(2) by (simp only: lp)
  then show "watched (space (snd (loadPage page during e)))
               = filter (\<lambda>w. w \<noteq> page) (watched (space e))"
    using assms(1) by (simp add: consoleLog_def viewDispatch_def saveState_def unwatchPage_def)
qed

lemma cursor_fields:
  "editorView cursorEditor
     = Some (demoView\<lparr>state := (state demoView)\<lparr>stateSelection := \<lparr>anchor = 3, head = 3\<rparr>\<rparr>\<rparr>)"
  "currentPage (viewState cursorEditor) = Some ''index''"
  "collabState cursorEditor = None"
  "space cursorEditor = demoSpace\<lparr>online := False\<rparr>"
  by (simp_all add: cursorEditor_def offlineEditor_def demoEditor_def)

lemma visited_close:
  "fst (closePrevious ''notes'' [] visitedEditor) = Returns ()"
  "editorView (snd (closePrevious ''notes'' [] visitedEditor)) = Some demoView"
  "map_of (openPages (snd (closePrevious ''notes'' [] visitedEditor))) ''notes''
     = Some \<lparr>scrollTop = 120, selection = \<lparr>anchor = 3, head = 3\<rparr>\<rparr>"
  "collabState (snd (closePrevious ''notes'' [] visitedEditor)) = None"
  "space (snd (closePrevious ''notes'' [] visitedEditor)) = demoSpace\<lparr>online := False, watched := []\<rparr>"
  by (simp_all add: closePrevious_def awaitSave_def save_def setTimeout_def fireTimer_def
        saveCallback_def writeSettled_def settle_def saveState_def unwatchPage_def bind_def
        visitedEditor_def offlineEditor_def demoEditor_def demoSpace_def Let_def)


text \<open>
  C10 fails when the state kept for the page has its cursor behind the start of the
  text. After a failed read \<open>loadPage\<close> does set up the fresh empty page, but restoring
  the kept selection in the empty document throws in \<open>restoreState\<close>, and the exception
  leaves \<open>loadPage\<close>: it does not return \<open>true\<close>, the page is not watched and
  \<open>page-loaded\<close> is not dispatched. This happens when the current page \<open>index\<close>, with
  the cursor behind its third character, is loaded again while the space cannot be
  reached, and when the page \<open>notes\<close>, visited before with the cursor there, is opened
  from \<open>index\<close>.
\<close>

theorem loadPage_read_failure_throws:
  "readPage (space cursorEditor) ''index'' = Inl (Error ''Offline'')
   \<and> fst (loadPage ''index'' [] cursorEditor)
       = Throws (Error ''RangeError: Selection points outside of document'')
   \<and> map_option (\<lambda>v. doc (state v)) (editorView (snd (loadPage ''index'' [] cursorEditor)))
       = Some []
   \<and> watched (space (snd (loadPage ''index'' [] cursorEditor))) = []
   \<and> map_of (openPages visitedEditor) ''notes''
       = Some \<lparr>scrollTop = 120, selection = \<lparr>anchor = 3, head = 3\<rparr>\<rparr>
   \<and> readPage (space visitedEditor) ''notes'' = Inl (Error ''Offline'')
   \<and> fst (loadPage ''notes'' [] visitedEditor)
       = Throws (Error ''RangeError: Selection points outside of document'')
   \<and> watched (space (snd (loadPage ''notes'' [] visitedEditor))) = []"
proof -
  let ?cv = "demoView\<lparr>state := (state demoView)\<lparr>stateSelection := \<lparr>anchor = 3, head = 3\<rparr>\<rparr>\<rparr>"
  have rd: "readPage (space cursorEditor) ''index'' = Inl (Error ''Offline'')"
    by (simp add: readPage_def cursor_fields)
  have pos: "0 < max (anchor (stateSelection (state ?cv))) (head (stateSelection (state ?cv)))"
    by simp
  have ne: "''index'' \<noteq> []" by simp
  note r = loadPage_reload_beyond [OF cursor_fields(1) cursor_fields(2) ne rd cursor_fields(3) pos,
             of "[]"]
  have w: "watched (space (snd (loadPage ''index'' [] cursorEditor))) = []"
    using r(3) by (simp add: cursor_fields demoSpace_def)
  have kept: "map_of (openPages visitedEditor) ''notes''
       = Some \<lparr>scrollTop = 120, selection = \<lparr>anchor = 3, head = 3\<rparr>\<rparr>"
    by (simp add: visitedEditor_def)
  have rd2: "readPage (space visitedEditor) ''notes'' = Inl (Error ''Offline'')"
    by (simp add: readPage_def visitedEditor_def offlineEditor_def)
  let ?cp = "closePrevious ''notes'' [] visitedEditor"
  let ?e3 = "consoleLog (''Creating new page '' @ ''notes'') (viewDispatch (PageLoading ''notes'') (snd ?cp))"
  have cp: "?cp = (Returns (), snd ?cp)"
    using visited_close(1) by (simp add: prod_eq_iff)
  have ev: "editorView visitedEditor = Some demoView"
    by (simp add: visitedEditor_def offlineEditor_def demoEditor_def)
  have cur: "currentPage (viewState visitedEditor) = Some ''index''"
    by (simp add: visitedEditor_def offlineEditor_def demoEditor_def)
  have rd3: "readPage (space (viewDispatch (PageLoading ''notes'') (snd ?cp))) ''notes''
               = Inl (Error ''Offline'')"
    by (simp add: viewDispatch_def visited_close readPage_def)
  have lp: "loadPage ''notes'' [] visitedEditor = openDoc True ''notes'' (freshDoc ''notes'') ?e3"
    by (subst loadPage_def, subst cp) (simp add: ev cur rd3 Let_def)
  have v: "editorView ?e3 = Some demoView"
    by (simp add: consoleLog_def viewDispatch_def visited_close)
  have o: "map_of (openPages ?e3) ''notes''
             = Some \<lparr>scrollTop = 120, selection = \<lparr>anchor = 3, head = 3\<rparr>\<rparr>"
    by (simp add: consoleLog_def viewDispatch_def visited_close)
  have c: "collabState ?e3 = None"
    by (simp add: consoleLog_def viewDispatch_def visited_close)
  have l: "length (codeUnits (docText (freshDoc ''notes'')))
             < max (anchor (selection \<lparr>scrollTop = 120, selection = \<lparr>anchor = 3, head = 3\<rparr>\<rparr>))
                   (head (selection \<lparr>scrollTop = 120, selection = \<lparr>anchor = 3, head = 3\<rparr>\<rparr>))"
    by (simp add: freshDoc_def codeUnits_def)
  note r2 = openDoc_beyond [OF v o c l, of True]
  have t2: "fst (loadPage ''notes'' [] visitedEditor)
       = Throws (Error ''RangeError: Selection points outside of document'')"
    using r2(1) by (simp only: lp)
  have "space (snd (loadPage ''notes'' [] visitedEditor)) = space ?e3"
    using r2(2) by (simp only: lp)
  then have w2: "watched (space (snd (loadPage ''notes'' [] visitedEditor))) = []"
    by (simp add: consoleLog_def viewDispatch_def visited_close)
  from rd r(1) r(2) w kept rd2 t2 w2 show ?thesis by blast
qed

text \<open>
  \<open>loadPage\<close> waits for the forced save of the previous page. A call of \<open>save\<close> before
  the timer of that save fires clears the timer, and the promise that \<open>loadPage\<close> awaits
  stays pending.
\<close>

lemma loadPage_waits:
  "fst (loadPage ''notes'' [CallSave False] demoEditor) = NeverSettles"
  by (simp add: loadPage_def closePrevious_def awaitSave_def save_def setTimeout_def
        clearTimeout_def fireTimer_def writeSettled_def saveState_def unwatchPage_def
        demoEditor_def Let_def)


section \<open>Properties of reloading\<close>

lemma bindingOwners_Cons:
  "bindingOwners (e # tab) =
     (case bindingOwner (snd e) of None \<Rightarrow> [] | Some r \<Rightarrow> [r]) @ bindingOwners tab"
  by (simp add: bindingOwners_def)

lemma bindingOwners_append: "bindingOwners (xs @ ys) = bindingOwners xs @ bindingOwners ys"
  by (simp add: bindingOwners_def)

lemma bindingOwners_filter: "set (bindingOwners (filter P tab)) \<subseteq> set (bindingOwners tab)"
  by (induction tab) (auto simp: bindingOwners_Cons bindingOwners_def split: option.splits)

lemma bindingOwners_unload:
  "set (bindingOwners (filter (\<lambda>e. bindingOwner (snd e) \<noteq> Some r) tab))
     = set (bindingOwners tab) - {r}"
  by (induction tab) (auto simp: bindingOwners_Cons bindingOwners_def split: option.splits)

lemma bindingOwners_bind:
  "set (bindingOwners (bind n b tab)) \<subseteq> set (bindingOwners tab) \<union> set_option (bindingOwner b)"
  using bindingOwners_filter [of "\<lambda>e. fst e \<noteq> n" tab]
  by (auto simp: bind_def bindingOwners_append bindingOwners_Cons bindingOwners_def
        split: option.splits)

subsection \<open>Unloading\<close>

lemma unloadPlugin_refs: "loadedRefs (unloadPlugin r sys) = filter (\<lambda>x. x \<noteq> r) (loadedRefs sys)"
  by (simp add: unloadPlugin_def loadedRefs_def filter_map comp_def)

lemma owner_filter: "set (map f (filter (\<lambda>x. f x \<noteq> r) xs)) = set (map f xs) - {r}"
  by auto

lemma unloadPlugin_owners:
  "set (ownerList (unloadPlugin r sys)) = set (ownerList sys) - {r}"
proof -
  have "set (ownerList (unloadPlugin r sys)) =
      (set (map (\<lambda>s. fst (snd s)) (subscriptions sys)) - {r})
      \<union> (set (map commandOwner (commandTable sys)) - {r})
      \<union> (set (map slashOwner (slashCommands sys)) - {r})
      \<union> (set (map nsOwner (namespaceHandlers sys)) - {r})
      \<union> (set (bindingOwners (syscalls sys)) - {r})"
    using owner_filter [of "\<lambda>s. fst (snd s)" r "subscriptions sys"]
      owner_filter [of commandOwner r "commandTable sys"]
      owner_filter [of slashOwner r "slashCommands sys"]
      owner_filter [of nsOwner r "namespaceHandlers sys"]
      bindingOwners_unload [of r "syscalls sys"]
    by (simp add: unloadPlugin_def ownerList_def Un_assoc)
  also have "\<dots> = set (ownerList sys) - {r}"
    by (simp add: ownerList_def Un_Diff Un_assoc)
  finally show ?thesis .
qed

lemma unloadPlugin_generations: "generations (unloadPlugin r sys) = generations sys"
  by (simp add: unloadPlugin_def)

lemma fold_unload_refs:
  "loadedRefs (fold unloadPlugin rs sys) = filter (\<lambda>x. x \<notin> set rs) (loadedRefs sys)"
  by (induction rs arbitrary: sys) (auto simp: unloadPlugin_refs intro: filter_cong)

lemma fold_unload_owners:
  "set (ownerList (fold unloadPlugin rs sys)) = set (ownerList sys) - set rs"
  by (induction rs arbitrary: sys) (auto simp: unloadPlugin_owners)

lemma fold_unload_generations: "generations (fold unloadPlugin rs sys) = generations sys"
  by (induction rs arbitrary: sys) (auto simp: unloadPlugin_generations)

lemma unloadAll_refs: "loadedRefs (unloadAll sys) = []"
proof -
  have "loadedRefs (unloadAll sys)
          = filter (\<lambda>x. x \<notin> set (map pluginRef (plugins sys))) (loadedRefs sys)"
    by (simp only: unloadAll_def fold_unload_refs)
  then show ?thesis by (simp add: loadedRefs_def)
qed

lemma unloadAll_plugins: "plugins (unloadAll sys) = []"
proof -
  have "map pluginRef (plugins (unloadAll sys)) = []"
    using unloadAll_refs [of sys] by (simp only: loadedRefs_def)
  then show ?thesis by simp
qed

lemma unloadAll_owners: "wellFormed sys \<Longrightarrow> ownerList (unloadAll sys) = []"
proof -
  assume "wellFormed sys"
  then have "set (ownerList sys) - set (map pluginRef (plugins sys)) = {}"
    by (auto simp: wellFormed_def loadedRefs_def)
  then have "set (ownerList (unloadAll sys)) = {}"
    by (simp only: unloadAll_def fold_unload_owners)
  then show ?thesis by simp
qed

lemma unloadAll_generations: "generations (unloadAll sys) = generations sys"
  by (simp add: unloadAll_def fold_unload_generations)

subsection \<open>Loading\<close>

lemma grows_refl: "grows r s s"
  by (auto simp: grows_def)

lemma grows_trans: "grows r s s' \<Longrightarrow> grows r s' s'' \<Longrightarrow> grows r s s''"
  by (auto simp: grows_def)

lemma subscribe_grows: "grows r sys (subscribe ev r fn sys)"
  by (auto simp: grows_def subscribe_def ownerList_def)

lemma fold_subscribe_grows: "grows r sys (fold (\<lambda>ev. subscribe ev r fn) evs sys)"
proof (induction evs arbitrary: sys)
  case Nil
  show ?case by (simp add: grows_refl)
next
  case (Cons ev evs)
  show ?case
    using grows_trans [OF subscribe_grows [of r sys ev fn] Cons [of "subscribe ev r fn sys"]]
    by simp
qed

lemma registerCommand_grows: "grows r sys (registerCommand r fn c sys)"
  by (auto simp: grows_def registerCommand_def ownerList_def)

lemma registerSlash_grows: "grows r sys (registerSlash r fn c sys)"
  by (auto simp: grows_def registerSlash_def ownerList_def)

lemma registerNamespace_grows: "grows r sys (registerNamespace r fn ns sys)"
  by (auto simp: grows_def registerNamespace_def ownerList_def split: option.splits)

lemma registerBinding_grows: "grows r sys (registerBinding r sb fn fd sys)"
  using bindingOwners_bind [of "fst r @ ''.'' @ fn"
          "\<lparr>impl = sandboxImpl sb fn, requiredEnv = env fd, capability = None, bindingOwner = Some r\<rparr>"
          "syscalls sys"]
  by (auto simp: grows_def registerBinding_def ownerList_def)

lemma whenSome_grows:
  assumes "\<And>v s. grows r s (f v s)"
  shows "grows r sys (whenSome f x sys)"
  using assms by (cases x) (auto simp: whenSome_def grows_refl)

lemma registerFunction_grows: "grows r sys (registerFunction r sb e sys)"
proof -
  let ?s1 = "fold (\<lambda>ev. subscribe ev r (fst e)) (events (snd e)) sys"
  let ?s2 = "whenSome (registerCommand r (fst e)) (command (snd e)) ?s1"
  let ?s3 = "whenSome (registerSlash r (fst e)) (slashCommand (snd e)) ?s2"
  let ?s4 = "whenSome (registerNamespace r (fst e)) (pageNamespace (snd e)) ?s3"
  have 1: "grows r sys ?s1" by (rule fold_subscribe_grows)
  have 2: "grows r ?s1 ?s2" by (rule whenSome_grows) (rule registerCommand_grows)
  have 3: "grows r ?s2 ?s3" by (rule whenSome_grows) (rule registerSlash_grows)
  have 4: "grows r ?s3 ?s4" by (rule whenSome_grows) (rule registerNamespace_grows)
  have 5: "grows r ?s4 (registerBinding r sb (fst e) (snd e) ?s4)" by (rule registerBinding_grows)
  have "grows r sys (registerBinding r sb (fst e) (snd e) ?s4)"
    by (rule grows_trans [OF grows_trans [OF grows_trans [OF grows_trans [OF 1 2] 3] 4] 5])
  then show ?thesis by (simp only: registerFunction_def)
qed

lemma fold_registerFunction_grows: "grows r sys (fold (registerFunction r sb) fs sys)"
proof (induction fs arbitrary: sys)
  case Nil
  show ?case by (simp add: grows_refl)
next
  case (Cons f fs)
  show ?case
    using grows_trans [OF registerFunction_grows [of r sys sb f] Cons [of "registerFunction r sb f sys"]]
    by simp
qed

lemma lookupGen_bind:
  "lookupGen (bind n g gens) m = (if m = n then g else lookupGen gens m)"
  by (simp add: lookupGen_def map_of_bind)

lemma load_result:
  assumes "load m f sys = Inr sys'"
  shows "loadedRefs sys' =
           loadedRefs sys @ [(manifestName m, Suc (lookupGen (generations sys) (manifestName m)))]
       \<and> generations sys' =
           bind (manifestName m) (Suc (lookupGen (generations sys) (manifestName m))) (generations sys)
       \<and> set (ownerList sys') \<subseteq>
           insert (manifestName m, Suc (lookupGen (generations sys) (manifestName m)))
             (set (ownerList sys))"
proof -
  let ?n = "manifestName m"
  let ?g = "Suc (lookupGen (generations sys) ?n)"
  from assms obtain sb where sb: "f m = Some sb" and valid: "validManifest m"
    by (auto simp: load_def split: if_splits option.splits)
  let ?s1 = "sys\<lparr>generations := bind ?n ?g (generations sys),
                  plugins := plugins sys @ [\<lparr>manifest = m, sandbox = sb, generation = ?g\<rparr>]\<rparr>"
  have eq: "sys' = fold (registerFunction (?n, ?g) sb) (functionDefs m) ?s1"
    using assms sb valid by (simp add: load_def Let_def)
  have g: "grows (?n, ?g) ?s1 sys'"
    unfolding eq by (rule fold_registerFunction_grows)
  have o: "ownerList ?s1 = ownerList sys" by (simp add: ownerList_def)
  have p: "loadedRefs ?s1 = loadedRefs sys @ [(?n, ?g)]"
    by (simp add: loadedRefs_def pluginRef_def)
  from g o p show ?thesis
    by (simp add: grows_def loadedRefs_def)
qed

lemma load_fresh:
  assumes "fresh G sys" and "load m f sys = Inr sys'"
  shows "fresh G sys'"
proof -
  let ?n = "manifestName m"
  let ?g = "Suc (lookupGen (generations sys) ?n)"
  note r = load_result [OF assms(2)]
  have refs: "set (loadedRefs sys') = insert (?n, ?g) (set (loadedRefs sys))"
    using r by simp
  have gens: "\<And>k. lookupGen (generations sys') k = (if k = ?n then ?g else lookupGen (generations sys) k)"
    using r by (simp add: lookupGen_bind)
  have own: "set (ownerList sys') \<subseteq> insert (?n, ?g) (set (ownerList sys))"
    using r by blast
  have base: "lookupGen G ?n \<le> lookupGen (generations sys) ?n"
    using assms(1) by (simp add: fresh_def)
  have wf: "wellFormed sys'"
    using assms(1) own unfolding fresh_def wellFormed_def refs
    by (auto simp: gens le_SucI)
  have new: "\<forall>r \<in> set (loadedRefs sys'). lookupGen G (fst r) < snd r"
    using assms(1) base unfolding fresh_def refs by (auto simp: less_Suc_eq_le)
  have mono: "\<forall>k. lookupGen G k \<le> lookupGen (generations sys') k"
    using assms(1) unfolding fresh_def by (auto simp: gens le_SucI)
  from wf new mono show ?thesis by (simp add: fresh_def)
qed

lemma report_fresh:
  "fresh G sys \<Longrightarrow> fresh G (sys\<lparr>loadReports := x\<rparr>)"
  by (simp add: fresh_def wellFormed_def loadedRefs_def ownerList_def)

lemma loadAll_fresh: "fresh G sys \<Longrightarrow> fresh G (loadAll ms f sys)"
proof (induction ms arbitrary: sys)
  case Nil
  then show ?case by (simp add: loadAll_def)
next
  case (Cons m ms)
  show ?case
  proof (cases "load m f sys")
    case (Inl a)
    have "fresh G (sys\<lparr>loadReports := loadReports sys @ [(manifestName m, a)]\<rparr>)"
      using Cons.prems by (rule report_fresh)
    from Cons.IH [OF this] Inl show ?thesis by (simp add: loadAll_def)
  next
    case (Inr s')
    have "fresh G s'" using Cons.prems Inr by (rule load_fresh)
    from Cons.IH [OF this] Inr show ?thesis by (simp add: loadAll_def)
  qed
qed

lemma unloadAll_fresh: "wellFormed sys \<Longrightarrow> fresh (generations sys) (unloadAll sys)"
  by (simp add: fresh_def wellFormed_def unloadAll_refs unloadAll_owners unloadAll_generations)

lemma reload_fresh: "wellFormed sys \<Longrightarrow> fresh (generations sys) (reload ms f sys)"
  unfolding reload_def by (intro loadAll_fresh unloadAll_fresh)

lemma fresh_stale:
  assumes "wellFormed old" and "fresh (generations old) new"
  shows "set (loadedRefs new) \<inter> set (loadedRefs old) = {}"
    and "set (ownerList new) \<inter> set (loadedRefs old) = {}"
proof -
  show a: "set (loadedRefs new) \<inter> set (loadedRefs old) = {}"
  proof (rule ccontr)
    assume "set (loadedRefs new) \<inter> set (loadedRefs old) \<noteq> {}"
    then obtain r where r: "r \<in> set (loadedRefs new)" "r \<in> set (loadedRefs old)" by blast
    from r(1) assms(2) have "lookupGen (generations old) (fst r) < snd r"
      by (simp add: fresh_def)
    moreover from r(2) assms(1) have "snd r \<le> lookupGen (generations old) (fst r)"
      by (simp add: wellFormed_def)
    ultimately show False by simp
  qed
  have "set (ownerList new) \<subseteq> set (loadedRefs new)"
    using assms(2) by (simp add: fresh_def wellFormed_def)
  with a show "set (ownerList new) \<inter> set (loadedRefs old) = {}" by blast
qed

lemma invoke_unloaded:
  "r \<notin> set (loadedRefs sys) \<Longrightarrow> invoke r fn args sys = (Inl Trapped, sys)"
proof -
  assume "r \<notin> set (loadedRefs sys)"
  then have "find (\<lambda>p. pluginRef p = r) (plugins sys) = None"
    by (auto simp: find_None_iff loadedRefs_def)
  then show ?thesis by (simp add: invoke_def findPlugin_def)
qed

subsection \<open>The editor's reload\<close>

lemma sameTables_refl: "sameTables s s"
  by (simp add: sameTables_def)

lemma sameTables_trans: "sameTables s s' \<Longrightarrow> sameTables s' s'' \<Longrightarrow> sameTables s s''"
  by (auto simp: sameTables_def)

lemma sameTables_owners: "sameTables s s' \<Longrightarrow> set (ownerList s') \<subseteq> set (ownerList s)"
  by (auto simp: sameTables_def ownerList_def)

lemma sameTables_refs: "sameTables s s' \<Longrightarrow> loadedRefs s' = loadedRefs s"
  by (simp add: sameTables_def loadedRefs_def)

lemma invoke_tables: "sameTables sys (snd (invoke r fn args sys))"
  by (simp add: sameTables_def invoke_def split: option.splits)

lemma hookLog_tables: "sameTables sys (sys\<lparr>hookLog := x\<rparr>)"
  by (simp add: sameTables_def)

lemma dispatchLoop_tables: "sameTables sys (snd (dispatchLoop ev payload subs acc sys))"
proof (induction subs arbitrary: acc sys)
  case Nil
  show ?case by (simp add: sameTables_refl)
next
  case (Cons s subs)
  let ?s1 = "snd (invoke (fst s) (snd s) [payload] sys)"
  have 1: "sameTables sys ?s1" by (rule invoke_tables)
  show ?case
  proof (cases "outcomeOf sys payload s")
    case (Inl f)
    have "sameTables sys (?s1\<lparr>hookLog := hookLog ?s1 @ [(ev, fst s, snd s, f)]\<rparr>)"
      by (rule sameTables_trans [OF 1 hookLog_tables])
    from sameTables_trans [OF this Cons] Inl show ?thesis
      by (simp only: dispatchLoop_step) simp
  next
    case (Inr v)
    from sameTables_trans [OF 1 Cons] Inr show ?thesis
      by (simp only: dispatchLoop_step) simp
  qed
qed

lemma dispatchAppEvent_tables: "sameTables (system e) (system (snd (dispatchAppEvent ev p e)))"
  by (simp add: dispatchAppEvent_def dispatchEvent_def dispatchLoop_tables split: prod.splits)
     (metis dispatchLoop_tables snd_conv)

lemma register_tables: "sameTables sys (register n e f sys)"
  using bindingOwners_bind [of n "\<lparr>impl = f, requiredEnv = e, capability = None, bindingOwner = None\<rparr>"
          "syscalls sys"]
  by (simp add: sameTables_def register_def)

lemma registerSyscalls_tables: "sameTables sys (registerSyscalls caps tab sys)"
  unfolding registerSyscalls_def
proof (induction tab arbitrary: sys)
  case Nil
  show ?case by (simp add: sameTables_refl)
next
  case (Cons t tab)
  obtain n f where t: "t = (n, f)" by (cases t)
  show ?case
    using sameTables_trans [OF register_tables [of sys n None f] Cons [of "register n None f sys"]]
    by (simp add: t)
qed

lemma restoreState_system: "system (snd (restoreState page e)) = system e"
  by (simp add: restoreState_def dispatchSelection_def Let_def split: option.splits)

lemma rebuildEditorState_tables: "sameTables (system e) (system (snd (rebuildEditorState e)))"
proof -
  have r: "\<And>page x. system (snd (case restoreState page x of
                 (Returns b, e7) \<Rightarrow> (Returns (), e7)
               | (Throws err, e7) \<Rightarrow> (Throws err, e7)
               | (NeverSettles, e7) \<Rightarrow> (NeverSettles, e7))) = system x"
    using restoreState_system by (auto split: prod.splits Outcome.splits) (metis snd_conv)+
  show ?thesis
    by (auto simp: rebuildEditorState_def Let_def r consoleLog_def
          tweakEditorDOM_def setState_def saveState_def registerSyscalls_tables sameTables_refl
          split: option.splits)
qed

lemma commandsUpdated_frame:
  "system (commandsUpdated e) = system e"
  "createSandbox (commandsUpdated e) = createSandbox e"
  "space (commandsUpdated e) = space e"
  by (simp_all add: commandsUpdated_def viewDispatch_def)

lemma loadAll_Cons:
  "load m f sys = Inr s' \<Longrightarrow> loadAll (m # ms) f sys = loadAll ms f s'"
  by (simp add: loadAll_def)

lemma arrange_set: "set (arrange ks xs) = set xs"
proof (induction ks xs rule: arrange.induct)
  case (3 k ks x xs)
  let ?ys = "x # xs"
  let ?i = "k mod Suc (length xs)"
  have i: "?i < length ?ys" by simp
  have "set (take ?i ?ys @ drop (Suc ?i) ?ys) \<union> {?ys ! ?i} = set ?ys"
    using id_take_nth_drop [OF i] by (metis Un_insert_right set_append list.simps(15) sup_bot.right_neutral)
  with 3 show ?case by (auto simp: Let_def)
qed simp_all

lemma loadPlugs_result:
  "loadPlugs files e = (None, e') \<Longrightarrow>
   system e' = loadAll (map (\<lambda>p. the (snd p)) files) (createSandbox e) (system e)"
proof (induction files arbitrary: e)
  case Nil
  then show ?case by (simp add: loadAll_def)
next
  case (Cons pf files)
  obtain plugName x where pf: "pf = (plugName, x)" by (cases pf)
  from Cons.prems pf obtain m where m: "x = Some m"
    by (cases x) (auto simp: firstError_def)
  from Cons.prems pf m obtain sys where sys: "load m (createSandbox e) (system e) = Inr sys"
    by (cases "load m (createSandbox e) (system e)") (auto simp: firstError_def)
  from Cons.prems pf m sys
  have "loadPlugs files (commandsUpdated (e\<lparr>system := sys\<rparr>)) = (None, e')"
    by simp
  from Cons.IH [OF this]
  have "system e' = loadAll (map (\<lambda>p. the (snd p)) files) (createSandbox e) sys"
    by (simp add: commandsUpdated_frame)
  then show ?case
    by (simp add: pf m loadAll_Cons [OF sys])
qed

lemma load_succeeds:
  "validManifest m \<Longrightarrow> f m \<noteq> None \<Longrightarrow> \<exists>s'. load m f sys = Inr s'"
  by (auto simp: load_def Let_def split: option.splits)

lemma loadPlugs_returns:
  "\<forall>p \<in> set files. \<exists>m. snd p = Some m \<and> validManifest m \<and> createSandbox e m \<noteq> None \<Longrightarrow>
   fst (loadPlugs files e) = None"
proof (induction files arbitrary: e)
  case Nil
  then show ?case by simp
next
  case (Cons pf files)
  obtain plugName x where pf: "pf = (plugName, x)" by (cases pf)
  from Cons.prems pf obtain m where m: "x = Some m" "validManifest m" "createSandbox e m \<noteq> None"
    by auto
  obtain sys where sys: "load m (createSandbox e) (system e) = Inr sys"
    using load_succeeds [of m "createSandbox e" "system e"] m(2,3) by blast
  have "\<forall>p \<in> set files. \<exists>m. snd p = Some m \<and> validManifest m
          \<and> createSandbox (commandsUpdated (e\<lparr>system := sys\<rparr>)) m \<noteq> None"
    using Cons.prems by (simp add: commandsUpdated_frame)
  from Cons.IH [OF this] show ?case
    by (simp add: pf m sys)
qed

lemma loadPlugs_frame:
  "editorView (snd (loadPlugs files e)) = editorView e
   \<and> collabState (snd (loadPlugs files e)) = collabState e"
proof (induction files arbitrary: e)
  case Nil
  show ?case by simp
next
  case (Cons pf files)
  obtain plugName x where pf: "pf = (plugName, x)" by (cases pf)
  show ?case
  proof (cases x)
    case None
    with Cons [of e] pf show ?thesis by (simp add: firstError_def)
  next
    case (Some m)
    show ?thesis
    proof (cases "load m (createSandbox e) (system e)")
      case (Inl f)
      with Cons [of e] pf Some show ?thesis by (simp add: firstError_def)
    next
      case (Inr sys)
      with Cons [of "commandsUpdated (e\<lparr>system := sys\<rparr>)"] pf Some show ?thesis
        by (simp add: commandsUpdated_def viewDispatch_def)
    qed
  qed
qed

lemma unloaded_frame:
  "system (unloaded e) = unloadAll (system e)"
  "createSandbox (unloaded e) = createSandbox e"
  "space (unloaded e) = space e"
  by (simp_all add: unloaded_def Let_def consoleLog_def viewDispatch_def commandsUpdated_def)

text \<open>
  Rebuilding the editor state returns when no collab session is attached and the
  selection of the view lies within its text: the state kept is then restored on the
  same text.
\<close>

lemma rebuildEditorState_returns:
  assumes "collabState e = None"
      and "\<forall>v. editorView e = Some v \<longrightarrow>
             max (anchor (stateSelection (state v))) (head (stateSelection (state v)))
               \<le> length (codeUnits (doc (state v)))"
  shows "fst (rebuildEditorState e) = Returns ()"
  using assms
  by (auto simp: rebuildEditorState_def Let_def consoleLog_def restoreState_def
        dispatchSelection_def tweakEditorDOM_def setState_def saveState_def
        createEditorState_def map_of_bind_same split: option.splits)

lemma reloadPlugs_online:
  "online (space e) \<Longrightarrow>
   reloadPlugs order e =
     (case loadPlugs (arrange order (plugFiles (space e))) (unloaded e) of
        (Some err, e4) \<Rightarrow> (Throws err, e4)
      | (None, e4) \<Rightarrow>
          (case rebuildEditorState e4 of
             (Throws err, e5) \<Rightarrow> (Throws err, e5)
           | (NeverSettles, e5) \<Rightarrow> (NeverSettles, e5)
           | (Returns u, e5) \<Rightarrow>
               (case dispatchAppEvent ''plugs:loaded'' JUndefined e5 of
                  (rs, e6) \<Rightarrow> (Returns (), e6))))"
  by (simp add: reloadPlugs_def updatePageList_def unloaded_def Let_def consoleLog_def
        viewDispatch_def commandsUpdated_def)

lemma reloadPlugs_unfold:
  "reloadPlugs order e =
     (if \<not> online (space e) then (Throws (Error ''Offline''), consoleLog ''Loading plugs'' e)
      else (case fst (loadPlugs (arrange order (plugFiles (space e))) (unloaded e)) of
              Some err \<Rightarrow>
                (Throws err, snd (loadPlugs (arrange order (plugFiles (space e))) (unloaded e)))
            | None \<Rightarrow>
                (case fst (rebuildEditorState
                             (snd (loadPlugs (arrange order (plugFiles (space e))) (unloaded e)))) of
                   Returns u \<Rightarrow>
                     (Returns (),
                      snd (dispatchAppEvent ''plugs:loaded'' JUndefined
                             (snd (rebuildEditorState
                                     (snd (loadPlugs (arrange order (plugFiles (space e)))
                                             (unloaded e)))))))
                 | Throws err \<Rightarrow>
                     (Throws err,
                      snd (rebuildEditorState
                             (snd (loadPlugs (arrange order (plugFiles (space e))) (unloaded e)))))
                 | NeverSettles \<Rightarrow>
                     (NeverSettles,
                      snd (rebuildEditorState
                             (snd (loadPlugs (arrange order (plugFiles (space e))) (unloaded e))))))))"
proof (cases "online (space e)")
  case False
  then show ?thesis by (simp add: reloadPlugs_def updatePageList_def consoleLog_def)
next
  case True
  obtain r e4 where lp: "loadPlugs (arrange order (plugFiles (space e))) (unloaded e) = (r, e4)"
    by (cases "loadPlugs (arrange order (plugFiles (space e))) (unloaded e)")
  obtain out e5 where rb: "rebuildEditorState e4 = (out, e5)"
    by (cases "rebuildEditorState e4")
  obtain rs e6 where d: "dispatchAppEvent ''plugs:loaded'' JUndefined e5 = (rs, e6)"
    by (cases "dispatchAppEvent ''plugs:loaded'' JUndefined e5")
  show ?thesis
    using True lp rb d
    by (simp add: reloadPlugs_online split: option.splits Outcome.splits)
qed

lemma reloadPlugs_result:
  assumes "reloadPlugs order e = (Returns (), e')"
  shows "sameTables
           (reload (map (\<lambda>p. the (snd p)) (arrange order (plugFiles (space e))))
              (createSandbox e) (system e))
           (system e')"
proof -
  let ?lp = "loadPlugs (arrange order (plugFiles (space e))) (unloaded e)"
  let ?rb = "rebuildEditorState (snd ?lp)"
  from assms have on: "online (space e)"
    by (auto simp: reloadPlugs_unfold split: if_splits)
  from assms on have ret: "fst ?lp = None"
    by (cases "fst ?lp") (auto simp: reloadPlugs_unfold)
  then have lp: "?lp = (None, snd ?lp)" by (simp add: prod_eq_iff)
  from assms on ret have rb: "fst ?rb = Returns ()"
    by (cases "fst ?rb") (auto simp: reloadPlugs_unfold)
  from assms on ret rb
  have e': "e' = snd (dispatchAppEvent ''plugs:loaded'' JUndefined (snd ?rb))"
    by (simp add: reloadPlugs_unfold)
  have sys: "system (snd ?lp) =
      reload (map (\<lambda>p. the (snd p)) (arrange order (plugFiles (space e)))) (createSandbox e) (system e)"
    using loadPlugs_result [OF lp] by (simp add: unloaded_frame reload_def)
  have "sameTables (system (snd ?lp)) (system e')"
    unfolding e'
    by (rule sameTables_trans [OF rebuildEditorState_tables dispatchAppEvent_tables])
  then show ?thesis by (simp only: sys)
qed

lemma unloaded_view:
  "editorView (unloaded e) = editorView e" "collabState (unloaded e) = collabState e"
  by (simp_all add: unloaded_def Let_def consoleLog_def viewDispatch_def commandsUpdated_def)

lemma reloadPlugs_returns:
  assumes "online (space e)"
      and "\<forall>p \<in> set (plugFiles (space e)).
             \<exists>m. snd p = Some m \<and> validManifest m \<and> createSandbox e m \<noteq> None"
      and "collabState e = None"
      and "\<forall>v. editorView e = Some v \<longrightarrow>
             max (anchor (stateSelection (state v))) (head (stateSelection (state v)))
               \<le> length (codeUnits (doc (state v)))"
  shows "fst (reloadPlugs order e) = Returns ()"
proof -
  let ?lp = "loadPlugs (arrange order (plugFiles (space e))) (unloaded e)"
  have "\<forall>p \<in> set (arrange order (plugFiles (space e))).
             \<exists>m. snd p = Some m \<and> validManifest m \<and> createSandbox (unloaded e) m \<noteq> None"
    using assms(2) by (simp add: unloaded_frame arrange_set)
  then have lp: "fst ?lp = None"
    by (rule loadPlugs_returns)
  have "fst (rebuildEditorState (snd ?lp)) = Returns ()"
    using assms(3,4) loadPlugs_frame [of "arrange order (plugFiles (space e))" "unloaded e"]
    by (intro rebuildEditorState_returns) (simp_all add: unloaded_view)
  with assms(1) lp show ?thesis by (simp add: reloadPlugs_unfold)
qed

text \<open>
  C3. \<open>reload\<close> is \<open>unloadAll\<close> followed by \<open>loadAll\<close>. From a well-formed system,
  no event subscription, command entry, slash command, namespace handler or syscall
  binding of a plugin generation loaded before the reload remains after it, no plugin
  of such a generation is loaded, and invoking one reaches no sandbox (it is \<open>Trapped\<close>).
  The same holds for the system of the editor after \<open>reloadPlugs\<close> has returned, whose
  plugins and hook tables are those of \<open>reload\<close> on the plug files of the space, in
  whatever order their reads have completed.
\<close>

theorem reload_no_stale:
  assumes "wellFormed sys"
  shows "reload ms f sys = loadAll ms f (unloadAll sys)
       \<and> wellFormed (reload ms f sys)
       \<and> set (ownerList (reload ms f sys)) \<inter> set (loadedRefs sys) = {}
       \<and> set (loadedRefs (reload ms f sys)) \<inter> set (loadedRefs sys) = {}
       \<and> (\<forall>r \<in> set (loadedRefs sys). \<forall>fn args.
             invoke r fn args (reload ms f sys) = (Inl Trapped, reload ms f sys))
       \<and> (\<forall>order e e'. system e = sys \<and> reloadPlugs order e = (Returns (), e') \<longrightarrow>
             sameTables
               (reload (map (\<lambda>p. the (snd p)) (arrange order (plugFiles (space e))))
                  (createSandbox e) sys)
               (system e')
             \<and> set (ownerList (system e')) \<inter> set (loadedRefs sys) = {}
             \<and> (\<forall>r \<in> set (loadedRefs sys). \<forall>fn args.
                   invoke r fn args (system e') = (Inl Trapped, system e')))"
proof -
  have stale: "\<And>ms f. set (ownerList (reload ms f sys)) \<inter> set (loadedRefs sys) = {}
                     \<and> set (loadedRefs (reload ms f sys)) \<inter> set (loadedRefs sys) = {}"
    using fresh_stale [OF assms reload_fresh [OF assms]] by blast
  have wf: "wellFormed (reload ms f sys)"
    using reload_fresh [OF assms, of ms f] by (simp add: fresh_def)
  have trapped: "\<forall>r \<in> set (loadedRefs sys). \<forall>fn args.
             invoke r fn args (reload ms f sys) = (Inl Trapped, reload ms f sys)"
    using stale [of ms f] by (auto intro!: invoke_unloaded)
  have editor: "\<forall>order e e'. system e = sys \<and> reloadPlugs order e = (Returns (), e') \<longrightarrow>
             sameTables
               (reload (map (\<lambda>p. the (snd p)) (arrange order (plugFiles (space e))))
                  (createSandbox e) sys)
               (system e')
             \<and> set (ownerList (system e')) \<inter> set (loadedRefs sys) = {}
             \<and> (\<forall>r \<in> set (loadedRefs sys). \<forall>fn args.
                   invoke r fn args (system e') = (Inl Trapped, system e'))"
  proof (intro allI impI)
    fix order e e'
    assume h: "system e = sys \<and> reloadPlugs order e = (Returns (), e')"
    let ?ms = "map (\<lambda>p. the (snd p)) (arrange order (plugFiles (space e)))"
    let ?new = "reload ?ms (createSandbox e) sys"
    have t: "sameTables ?new (system e')"
      using reloadPlugs_result [of order e e'] h by simp
    have o: "set (ownerList (system e')) \<inter> set (loadedRefs sys) = {}"
      using sameTables_owners [OF t] stale [of ?ms "createSandbox e"]
      by blast
    have "set (loadedRefs (system e')) \<inter> set (loadedRefs sys) = {}"
      using sameTables_refs [OF t] stale [of ?ms "createSandbox e"]
      by simp
    then have i: "\<forall>r \<in> set (loadedRefs sys). \<forall>fn args.
                   invoke r fn args (system e') = (Inl Trapped, system e')"
      by (auto intro!: invoke_unloaded)
    from t o i show "sameTables ?new (system e')
             \<and> set (ownerList (system e')) \<inter> set (loadedRefs sys) = {}
             \<and> (\<forall>r \<in> set (loadedRefs sys). \<forall>fn args.
                   invoke r fn args (system e') = (Inl Trapped, system e'))"
      by blast
  qed
  from stale [of ms f] wf trapped editor show ?thesis
    by (simp add: reload_def)
qed

lemma valid_core: "validManifest coreManifest"
  by (simp add: validManifest_def validFunction_def coreManifest_def plainFunction_def
        plainCommand_def search_compiled cloud_compiled validKey_def)

lemma demo_wellFormed: "wellFormed demoSystem"
  by (simp add: wellFormed_def ownerList_def loadedRefs_def demoSystem_def newSystem_def
        bindingOwners_def pluginRef_def core_name lookupGen_def)

lemma demo_refs: "loadedRefs demoSystem = [(''core'', 1)]"
  by (simp add: loadedRefs_def demoSystem_def newSystem_def pluginRef_def core_name)

lemma demo_reload_refs:
  "loadedRefs (reload [coreManifest] demoFactory demoSystem) = [(''core'', 2)]"
proof -
  obtain s' where s': "load coreManifest demoFactory (unloadAll demoSystem) = Inr s'"
    using load_succeeds [of coreManifest demoFactory "unloadAll demoSystem"] valid_core
    by (auto simp: demoFactory_def)
  have "generations demoSystem = [(''core'', 1)]"
    by (simp add: demoSystem_def newSystem_def)
  then have "lookupGen (generations (unloadAll demoSystem)) ''core'' = 1"
    by (simp add: unloadAll_generations lookupGen_def)
  then have "loadedRefs s' = [(''core'', 2)]"
    using load_result [OF s'] by (simp add: unloadAll_refs core_name)
  moreover have "reload [coreManifest] demoFactory demoSystem = s'"
    using s' by (simp add: reload_def loadAll_def)
  ultimately show ?thesis by simp
qed

theorem reload_no_stale_witness:
  "wellFormed demoSystem
   \<and> loadedRefs demoSystem = [(''core'', 1)]
   \<and> loadedRefs (reload [coreManifest] demoFactory demoSystem) = [(''core'', 2)]
   \<and> (''core'', 1) \<notin> set (ownerList (reload [coreManifest] demoFactory demoSystem))
   \<and> invoke (''core'', 1) ''pageComplete'' [JUndefined] (reload [coreManifest] demoFactory demoSystem)
       = (Inl Trapped, reload [coreManifest] demoFactory demoSystem)
   \<and> fst (reloadPlugs [] reloadEditor) = Returns ()
   \<and> (''core'', 1) \<notin> set (ownerList (system (snd (reloadPlugs [] reloadEditor))))
   \<and> invoke (''core'', 1) ''deletePage'' [] (system (snd (reloadPlugs [] reloadEditor)))
       = (Inl Trapped, system (snd (reloadPlugs [] reloadEditor)))"
proof -
  note r = reload_no_stale [OF demo_wellFormed, of "[coreManifest]" demoFactory]
  have "set (ownerList (reload [coreManifest] demoFactory demoSystem)) \<inter> set (loadedRefs demoSystem) = {}"
    using r by blast
  then have a: "(''core'', 1) \<notin> set (ownerList (reload [coreManifest] demoFactory demoSystem))"
    by (simp add: demo_refs)
  have "\<forall>r \<in> set (loadedRefs demoSystem). \<forall>fn args.
             invoke r fn args (reload [coreManifest] demoFactory demoSystem)
               = (Inl Trapped, reload [coreManifest] demoFactory demoSystem)"
    using r by blast
  then have b: "invoke (''core'', 1) ''pageComplete'' [JUndefined] (reload [coreManifest] demoFactory demoSystem)
       = (Inl Trapped, reload [coreManifest] demoFactory demoSystem)"
    by (simp add: demo_refs)
  have f: "system reloadEditor = demoSystem" "online (space reloadEditor)"
      "plugFiles (space reloadEditor) = [(''_plug/core.plug.json'', Some coreManifest)]"
      "createSandbox reloadEditor = demoFactory" "collabState reloadEditor = None"
      "editorView reloadEditor = Some demoView"
    by (simp_all add: reloadEditor_def demoEditor_def demoSpace_def)
  have c: "fst (reloadPlugs [] reloadEditor) = Returns ()"
    by (rule reloadPlugs_returns) (simp_all add: f valid_core demoFactory_def demoView_def)
  then have run: "reloadPlugs [] reloadEditor = (Returns (), snd (reloadPlugs [] reloadEditor))"
    by (simp add: prod_eq_iff)
  from r f(1) run
  have "set (ownerList (system (snd (reloadPlugs [] reloadEditor)))) \<inter> set (loadedRefs demoSystem) = {}
      \<and> (\<forall>r \<in> set (loadedRefs demoSystem). \<forall>fn args.
            invoke r fn args (system (snd (reloadPlugs [] reloadEditor)))
              = (Inl Trapped, system (snd (reloadPlugs [] reloadEditor))))"
    by blast
  then have d: "(''core'', 1) \<notin> set (ownerList (system (snd (reloadPlugs [] reloadEditor))))"
    and e: "invoke (''core'', 1) ''deletePage'' [] (system (snd (reloadPlugs [] reloadEditor)))
       = (Inl Trapped, system (snd (reloadPlugs [] reloadEditor)))"
    by (auto simp: demo_refs)
  from demo_wellFormed demo_refs demo_reload_refs a b c d e show ?thesis by blast
qed

end
